theory Spec2Isabelle
  imports Main "HOL-Library.AList" "HOL-Library.Sublist"
begin

section \<open>ResourcesManager: data model\<close>

text \<open>
  The development embeds \<^verbatim>\<open>packages/neo-one-server/src/ResourcesManager.js\<close>.
  A JavaScript object used as a dictionary is a map; object identity (of a TaskList, of a
  ResourceAdapter) is a natural number handed out by an allocation counter; every
  \<^verbatim>\<open>throw\<close> is the \<open>Inl\<close> branch of a sum. A private method
  \<^verbatim>\<open>_foo\<close> is called \<open>foo\<close> here (an Isabelle name cannot start with an
  underscore); \<^verbatim>\<open>_destroy\<close> and \<^verbatim>\<open>_init\<close>, which have public
  namesakes, are \<open>destroy_p\<close> and \<open>init_p\<close>. Calls of \<^verbatim>\<open>this._log\<close> and the
  display-only task titles are left out.
\<close>

type_synonym name = string
type_synonym options = string
type_synonym adapter = nat
type_synonym ref = nat
type_synonym hook = nat
type_synonym mkey = "string \<times> string"

record ResourceDependency =
  plugin :: string
  resourceType :: string
  depName :: string

datatype error =
    ResourceNoStartError string string
  | ResourceNoStopError string string
  | UnknownResourcesManager string string
  | ForFlow
  | DuplicateResourceName string
  | SystemError string
  | TypeError
  | OtherError string

text \<open>The \<^verbatim>\<open>code\<close> property of a JavaScript error; only errors raised by the
  file system carry one.\<close>

fun code :: "error \<Rightarrow> string option" where
  "code (SystemError c) = Some c"
| "code _ = None"

datatype outcome = Resolved | Rejected error

text \<open>What \<^verbatim>\<open>resourceType.getCRUD()\<close> yields, as far as the manager reads it:
  \<^verbatim>\<open>create.startOnCreate\<close>, and whether \<^verbatim>\<open>start\<close> and \<^verbatim>\<open>stop\<close> are defined.\<close>

record CRUD =
  startOnCreate :: bool
  hasStart :: bool
  hasStop :: bool

datatype op = Create | Delete | Start | Stop

datatype reason =
    AlreadyBeing op
  | AlreadyExists
  | DoesNotExist
  | DoesNotExistTryCreating
  | AlreadyStarted

text \<open>The value of a task's \<^verbatim>\<open>skip()\<close>: \<^verbatim>\<open>false\<close>, \<^verbatim>\<open>true\<close>, or a
  message. Every \<^verbatim>\<open>skip\<close> closure of the file reads only constants captured when the
  operation was called, so its value is fixed when the task is built.\<close>

datatype skipped = NoSkip | SkipTrue | SkipBecause reason

text \<open>A task's \<^verbatim>\<open>enabled()\<close>: absent, a captured constant, or one of the two closures
  that read the manager when the task's turn comes
  (\<^verbatim>\<open>this._resourceAdaptersStarted[name]\<close>, \<^verbatim>\<open>this._createHooks.length > 0\<close>).\<close>

datatype enabled = Always | EnabledWhen bool | EnabledIfStarted mkey name | EnabledIfHooks mkey

datatype task_body =
    CreateResourceAdapter mkey name options
  | FinalSetup mkey name ref
  | Call op mkey name options
  | Hooks mkey name options
  | Abort "ref option"
  | DeleteDeps "ResourceDependency list"
  | StartDeps "ResourceDependency list"
  | StopDeps "ResourceDependency list"
  | AdapterDelete "adapter option" options
  | AdapterStart mkey name "adapter option" options
  | AdapterStop "adapter option" options
  | FinalCleanup mkey name "adapter option"

record task =
  enabled :: enabled
  skip :: skipped
  task :: task_body

text \<open>The lifecycle callbacks of a TaskList, by the operation that built it, with the
  variables their closures captured (\<open>shouldSkip\<close> is the boolean).\<close>

datatype callbacks =
    NoCallbacks
  | CreateCallbacks mkey name options bool ref
  | DeleteCallbacks mkey name bool
  | StartCallbacks mkey name options bool
  | StopCallbacks mkey name bool

record TaskList =
  freshContext :: "bool option"
  collapse :: "bool option"
  concurrent :: "bool option"
  tasks :: "task list"
  callbacks :: callbacks

record ctx =
  ctx_resourceAdapter :: "adapter option"
  ctx_dependencies :: "ResourceDependency list option"
  ctx_dependents :: "ResourceDependency list option"

text \<open>One ResourcesManager. \<^verbatim>\<open>_resourceAdapters\<close> is an association list in insertion
  order, because \<^verbatim>\<open>destroy\<close> enumerates its entries; a stored \<open>None\<close> is a key whose
  value is \<^verbatim>\<open>undefined\<close>. \<open>updates\<close> counts the emissions of \<^verbatim>\<open>_update$\<close>.\<close>

record manager =
  crud :: CRUD
  dataPath :: string
  resourceAdapters :: "(name \<times> adapter option) list"
  directResourceDependents :: "name \<rightharpoonup> ResourceDependency list"
  resourceDependents :: "name \<rightharpoonup> ResourceDependency list"
  createHooks :: "hook list"
  createTaskList :: "name \<rightharpoonup> ref"
  deleteTaskList :: "name \<rightharpoonup> ref"
  startTaskList :: "name \<rightharpoonup> ref"
  stopTaskList :: "name \<rightharpoonup> ref"
  resourceAdaptersStarted :: "name \<rightharpoonup> bool"
  updates :: nat

text \<open>How a promise obtained from \<^verbatim>\<open>toPromise()\<close> is consumed: the file only ever
  attaches \<^verbatim>\<open>.catch(() => {})\<close>.\<close>

datatype handler = Swallow

text \<open>The server: the managers registered in the PluginManager under
  \<open>(plugin, resourceType)\<close>, the TaskList objects allocated so far, the \<^verbatim>\<open>set\<close>
  variable of each \<^verbatim>\<open>create\<close> call (keyed by the TaskList of that call), the TaskLists
  on which \<^verbatim>\<open>abort()\<close> was called, the fire-and-forget promises, the errors thrown
  inside a lifecycle callback, and the ports released.\<close>

record world =
  managers :: "mkey \<rightharpoonup> manager"
  taskLists :: "ref \<rightharpoonup> TaskList"
  nextRef :: ref
  closureSet :: "ref \<Rightarrow> bool"
  aborted :: "ref list"
  spawned :: "(ref \<times> handler) list"
  thrown :: "error list"
  releasedPorts :: "(string \<times> string \<times> name) list"

definition emptyOptions :: options where
  "emptyOptions = ''{}''"

definition constructor :: "CRUD \<Rightarrow> string \<Rightarrow> manager" where
  "constructor c dp =
     \<lparr>crud = c, dataPath = dp, resourceAdapters = [],
      directResourceDependents = Map.empty, resourceDependents = Map.empty,
      createHooks = [],
      createTaskList = Map.empty, deleteTaskList = Map.empty,
      startTaskList = Map.empty, stopTaskList = Map.empty,
      resourceAdaptersStarted = Map.empty, updates = 1\<rparr>"

definition emptyWorld :: world where
  "emptyWorld =
     \<lparr>managers = Map.empty, taskLists = Map.empty, nextRef = 0,
      closureSet = (\<lambda>r. False), aborted = [], spawned = [], thrown = [],
      releasedPorts = []\<rparr>"

text \<open>Modelled from the spec: \<^verbatim>\<open>PluginManager.getResourcesManager\<close> is not in the
  sources; the spec requires it to be total and to fail loudly on an unknown
  \<open>(plugin, resourceType)\<close>.\<close>

definition getResourcesManager :: "world \<Rightarrow> mkey \<Rightarrow> error + manager" where
  "getResourcesManager w k =
     (case managers w k of
        None \<Rightarrow> Inl (UnknownResourcesManager (fst k) (snd k))
      | Some m \<Rightarrow> Inr m)"

definition updManager :: "world \<Rightarrow> mkey \<Rightarrow> (manager \<Rightarrow> manager) \<Rightarrow> world" where
  "updManager w k f =
     (case managers w k of
        None \<Rightarrow> w
      | Some m \<Rightarrow> w\<lparr>managers := (managers w)(k \<mapsto> f m)\<rparr>)"

text \<open>\<^verbatim>\<open>this._resourceAdapters[name]\<close>, read for a \<^verbatim>\<open>!= null\<close> test.\<close>

definition getAdapter :: "manager \<Rightarrow> name \<Rightarrow> adapter option" where
  "getAdapter m name =
     (case map_of (resourceAdapters m) name of None \<Rightarrow> None | Some v \<Rightarrow> v)"

definition newTaskList :: "world \<Rightarrow> TaskList \<Rightarrow> world" where
  "newTaskList w l =
     w\<lparr>taskLists := (taskLists w)(nextRef w \<mapsto> l), nextRef := Suc (nextRef w)\<rparr>"

definition update_next :: "world \<Rightarrow> mkey \<Rightarrow> world" where
  "update_next w k = updManager w k (\<lambda>m. m\<lparr>updates := Suc (updates m)\<rparr>)"

definition toPromise_catch :: "world \<Rightarrow> ref \<Rightarrow> world" where
  "toPromise_catch w r = w\<lparr>spawned := spawned w @ [(r, Swallow)]\<rparr>"

definition orEmpty :: "'a list option \<Rightarrow> 'a list" where
  "orEmpty v = (case v of None \<Rightarrow> [] | Some xs \<Rightarrow> xs)"

section \<open>Dependencies\<close>

definition depKey :: "ResourceDependency \<Rightarrow> string" where
  "depKey d = plugin d @ '':'' @ resourceType d @ '':'' @ depName d"

text \<open>lodash's \<^verbatim>\<open>uniqBy\<close>: the first element of every key is kept, in order.\<close>

fun uniqBy_from :: "string list \<Rightarrow> ('a \<Rightarrow> string) \<Rightarrow> 'a list \<Rightarrow> 'a list" where
  "uniqBy_from seen f [] = []"
| "uniqBy_from seen f (x # xs) =
     (if f x \<in> set seen then uniqBy_from seen f xs
      else x # uniqBy_from (f x # seen) f xs)"

definition uniqBy :: "'a list \<Rightarrow> ('a \<Rightarrow> string) \<Rightarrow> 'a list" where
  "uniqBy xs f = uniqBy_from [] f xs"

definition uniqueDeps :: "ResourceDependency list \<Rightarrow> ResourceDependency list" where
  "uniqueDeps deps = uniqBy deps depKey"

definition addDependent :: "manager \<Rightarrow> name \<Rightarrow> ResourceDependency \<Rightarrow> manager" where
  "addDependent m name dependent =
     m\<lparr>resourceDependents :=
         (resourceDependents m)(name \<mapsto> orEmpty (resourceDependents m name) @ [dependent])\<rparr>"

text \<open>\<^verbatim>\<open>_addDependents\<close>: the \<^verbatim>\<open>forEach\<close> stops at the first unknown manager, the
  earlier pushes staying done. A manager is registered under its own plugin and resource
  type names, so \<open>k\<close> stands for \<^verbatim>\<open>this._plugin.name\<close> and
  \<^verbatim>\<open>this.resourceType.name\<close>.\<close>

fun addDependents ::
  "world \<Rightarrow> mkey \<Rightarrow> name \<Rightarrow> ResourceDependency list \<Rightarrow> world \<times> error option" where
  "addDependents w k nameIn [] = (w, None)"
| "addDependents w k nameIn (d # ds) =
     (case getResourcesManager w (plugin d, resourceType d) of
        Inl e \<Rightarrow> (w, Some e)
      | Inr m \<Rightarrow>
          addDependents
            (updManager w (plugin d, resourceType d)
               (\<lambda>manager. addDependent manager (depName d)
                   \<lparr>plugin = fst k, resourceType = snd k, depName = nameIn\<rparr>))
            k nameIn ds)"

text \<open>The filter of \<^verbatim>\<open>_getStartDeps\<close> and \<^verbatim>\<open>_getStopDeps\<close>: the predicate looks
  the dependent's manager up, which throws for an unknown one.\<close>

fun filterDeps ::
  "(CRUD \<Rightarrow> bool) \<Rightarrow> world \<Rightarrow> ResourceDependency list \<Rightarrow> error + ResourceDependency list" where
  "filterDeps p w [] = Inr []"
| "filterDeps p w (d # ds) =
     (case getResourcesManager w (plugin d, resourceType d) of
        Inl e \<Rightarrow> Inl e
      | Inr m \<Rightarrow>
          (case filterDeps p w ds of
             Inl e \<Rightarrow> Inl e
           | Inr rest \<Rightarrow> Inr (if p (crud m) then d # rest else rest)))"

definition getStartDeps ::
  "world \<Rightarrow> ResourceDependency list option \<Rightarrow> error + ResourceDependency list" where
  "getStartDeps w deps = filterDeps hasStart w (orEmpty deps)"

definition getStopDeps ::
  "world \<Rightarrow> ResourceDependency list option \<Rightarrow> error + ResourceDependency list" where
  "getStopDeps w deps = filterDeps hasStop w (orEmpty deps)"

text \<open>The \<^verbatim>\<open>deps.map(...)\<close> of \<^verbatim>\<open>_deleteDeps\<close>, \<^verbatim>\<open>_startDeps\<close> and
  \<^verbatim>\<open>_stopDeps\<close>: one task per dependency, in order, each delegating to the owning
  manager with empty options; \<open>need\<close> is the \<^verbatim>\<open>'For Flow'\<close> check.\<close>

fun depTasks ::
  "op \<Rightarrow> (CRUD \<Rightarrow> bool) \<Rightarrow> world \<Rightarrow> ResourceDependency list \<Rightarrow> error + task list" where
  "depTasks opn need w [] = Inr []"
| "depTasks opn need w (d # ds) =
     (case getResourcesManager w (plugin d, resourceType d) of
        Inl e \<Rightarrow> Inl e
      | Inr m \<Rightarrow>
          if \<not> need (crud m) then Inl ForFlow
          else
            (case depTasks opn need w ds of
               Inl e \<Rightarrow> Inl e
             | Inr rest \<Rightarrow>
                 Inr (\<lparr>enabled = Always, skip = NoSkip,
                       task = Call opn (plugin d, resourceType d) (depName d) emptyOptions\<rparr>
                      # rest)))"





section \<open>The four operations\<close>

text \<open>Each operation reads the manager, builds its TaskList with \<^verbatim>\<open>new TaskList\<close>,
  stores it in the in-flight map unless \<open>shouldSkip\<close>, and returns it. The result is the
  reference of the new TaskList and the server after the call. The object literal passed
  to \<^verbatim>\<open>new TaskList\<close> is a definition of its own, with the variables its closures
  capture as arguments.\<close>

definition newCreateTaskList ::
  "mkey \<Rightarrow> name \<Rightarrow> options \<Rightarrow> CRUD \<Rightarrow> bool \<Rightarrow> adapter option \<Rightarrow> ref \<Rightarrow> TaskList" where
  "newCreateTaskList k name options c shouldSkip resourceAdapter r =
     (let skip' = (if shouldSkip \<or> resourceAdapter \<noteq> None then SkipTrue else NoSkip);
          mainSkip =
            (if shouldSkip then SkipBecause (AlreadyBeing Create)
             else if resourceAdapter \<noteq> None then SkipBecause AlreadyExists
             else NoSkip);
          startTask =
            (if startOnCreate c \<and> hasStart c
             then [\<lparr>enabled = EnabledWhen (startOnCreate c), skip = skip',
                    task = Call Start k name options\<rparr>]
             else [])
      in \<lparr>freshContext = Some True, collapse = Some False, concurrent = None,
          tasks =
            [\<lparr>enabled = Always, skip = mainSkip, task = CreateResourceAdapter k name options\<rparr>,
             \<lparr>enabled = Always, skip = skip', task = FinalSetup k name r\<rparr>]
            @ startTask
            @ [\<lparr>enabled = EnabledIfHooks k, skip = skip', task = Hooks k name options\<rparr>],
          callbacks = CreateCallbacks k name options shouldSkip r\<rparr>)"

definition create :: "world \<Rightarrow> mkey \<Rightarrow> name \<Rightarrow> options \<Rightarrow> error + ref \<times> world" where
  "create w k name options =
     (case getResourcesManager w k of
        Inl e \<Rightarrow> Inl e
      | Inr this \<Rightarrow>
          let shouldSkip = (createTaskList this name \<noteq> None);
              resourceAdapter = getAdapter this name;
              r = nextRef w;
              w1 = newTaskList w
                     (newCreateTaskList k name options (crud this) shouldSkip resourceAdapter r)
          in Inr (r,
                if \<not> shouldSkip
                then updManager w1 k (\<lambda>m. m\<lparr>createTaskList := (createTaskList m)(name \<mapsto> r)\<rparr>)
                else w1))"

definition newDeleteTaskList ::
  "mkey \<Rightarrow> name \<Rightarrow> options \<Rightarrow> CRUD \<Rightarrow> bool \<Rightarrow> ref option \<Rightarrow> ref option \<Rightarrow> adapter option
     \<Rightarrow> ResourceDependency list \<Rightarrow> TaskList" where
  "newDeleteTaskList k name options c shouldSkip startTaskList' createTaskList'
       resourceAdapter dependents =
     (let startStopTasks =
            (if hasStart c
             then [\<lparr>enabled = EnabledWhen (startTaskList' \<noteq> None), skip = NoSkip,
                    task = Abort startTaskList'\<rparr>]
             else [])
            @ (if hasStop c
               then [\<lparr>enabled = EnabledIfStarted k name, skip = NoSkip,
                      task = Call Stop k name options\<rparr>]
               else []);
          skip' = (if shouldSkip \<or> resourceAdapter = None then SkipTrue else NoSkip);
          mainSkip =
            (if shouldSkip then SkipBecause (AlreadyBeing Delete)
             else if resourceAdapter = None then SkipBecause DoesNotExist
             else NoSkip)
      in \<lparr>freshContext = Some True, collapse = Some False, concurrent = None,
          tasks =
            [\<lparr>enabled = EnabledWhen (createTaskList' \<noteq> None), skip = NoSkip,
              task = Abort createTaskList'\<rparr>]
            @ startStopTasks
            @ [\<lparr>enabled = EnabledWhen (dependents \<noteq> []), skip = skip',
                task = DeleteDeps dependents\<rparr>,
               \<lparr>enabled = Always, skip = skip', task = AdapterDelete resourceAdapter options\<rparr>,
               \<lparr>enabled = Always, skip = mainSkip,
                task = FinalCleanup k name resourceAdapter\<rparr>],
          callbacks = DeleteCallbacks k name shouldSkip\<rparr>)"

definition delete :: "world \<Rightarrow> mkey \<Rightarrow> name \<Rightarrow> options \<Rightarrow> error + ref \<times> world" where
  "delete w k name options =
     (case getResourcesManager w k of
        Inl e \<Rightarrow> Inl e
      | Inr this \<Rightarrow>
          let shouldSkip = (deleteTaskList this name \<noteq> None);
              startTaskList' = startTaskList this name;
              createTaskList' = createTaskList this name;
              resourceAdapter = getAdapter this name;
              dependents =
                uniqueDeps
                  (orEmpty (resourceDependents this name)
                   @ orEmpty (directResourceDependents this name));
              r = nextRef w;
              w1 = newTaskList w
                     (newDeleteTaskList k name options (crud this) shouldSkip startTaskList'
                        createTaskList' resourceAdapter dependents)
          in Inr (r,
                if \<not> shouldSkip
                then updManager w1 k (\<lambda>m. m\<lparr>deleteTaskList := (deleteTaskList m)(name \<mapsto> r)\<rparr>)
                else w1))"

definition newStartTaskList ::
  "mkey \<Rightarrow> name \<Rightarrow> options \<Rightarrow> bool \<Rightarrow> ref option \<Rightarrow> adapter option \<Rightarrow> bool
     \<Rightarrow> ResourceDependency list \<Rightarrow> TaskList" where
  "newStartTaskList k name options shouldSkip stopTaskList' resourceAdapter started
       directDependents =
     \<lparr>freshContext = Some True, collapse = Some False, concurrent = None,
      tasks =
        [\<lparr>enabled = EnabledWhen (stopTaskList' \<noteq> None),
          skip = (if shouldSkip then SkipTrue else NoSkip),
          task = Abort stopTaskList'\<rparr>,
         \<lparr>enabled = EnabledWhen (directDependents \<noteq> []),
          skip = (if shouldSkip \<or> resourceAdapter = None \<or> started then SkipTrue else NoSkip),
          task = StartDeps directDependents\<rparr>,
         \<lparr>enabled = Always,
          skip =
            (if shouldSkip then SkipBecause (AlreadyBeing Start)
             else if resourceAdapter = None then SkipBecause DoesNotExistTryCreating
             else if started then SkipBecause AlreadyStarted
             else NoSkip),
          task = AdapterStart k name resourceAdapter options\<rparr>],
      callbacks = StartCallbacks k name options shouldSkip\<rparr>"

definition start :: "world \<Rightarrow> mkey \<Rightarrow> name \<Rightarrow> options \<Rightarrow> error + ref \<times> world" where
  "start w k name options =
     (case getResourcesManager w k of
        Inl e \<Rightarrow> Inl e
      | Inr this \<Rightarrow>
          if \<not> hasStart (crud this) then Inl (ResourceNoStartError (fst k) (snd k))
          else if \<not> hasStop (crud this) then Inl (ResourceNoStopError (fst k) (snd k))
          else
            let shouldSkip = (startTaskList this name \<noteq> None);
                stopTaskList' = stopTaskList this name;
                resourceAdapter = getAdapter this name;
                started = (resourceAdaptersStarted this name = Some True)
            in (case getStartDeps w (directResourceDependents this name) of
                  Inl e \<Rightarrow> Inl e
                | Inr directDependents \<Rightarrow>
                    let r = nextRef w;
                        w1 = newTaskList w
                               (newStartTaskList k name options shouldSkip stopTaskList'
                                  resourceAdapter started directDependents)
                    in Inr (r,
                          if \<not> shouldSkip
                          then updManager w1 k
                                 (\<lambda>m. m\<lparr>startTaskList := (startTaskList m)(name \<mapsto> r)\<rparr>)
                          else w1)))"

definition newStopTaskList ::
  "mkey \<Rightarrow> name \<Rightarrow> options \<Rightarrow> bool \<Rightarrow> ref option \<Rightarrow> adapter option
     \<Rightarrow> ResourceDependency list \<Rightarrow> ResourceDependency list \<Rightarrow> TaskList" where
  "newStopTaskList k name options shouldSkip startTaskList' resourceAdapter dependents
       directDependents =
     (let skip' = (if shouldSkip \<or> resourceAdapter = None then SkipTrue else NoSkip);
          mainSkip =
            (if shouldSkip then SkipBecause (AlreadyBeing Stop)
             else if resourceAdapter = None then SkipBecause DoesNotExist
             else NoSkip)
      in \<lparr>freshContext = Some True, collapse = Some False, concurrent = None,
          tasks =
            [\<lparr>enabled = EnabledWhen (startTaskList' \<noteq> None), skip = skip',
              task = Abort startTaskList'\<rparr>,
             \<lparr>enabled = EnabledWhen (dependents \<noteq> []), skip = mainSkip,
              task = StopDeps dependents\<rparr>,
             \<lparr>enabled = Always, skip = skip', task = AdapterStop resourceAdapter options\<rparr>,
             \<lparr>enabled = EnabledWhen (directDependents \<noteq> []), skip = skip',
              task = StopDeps directDependents\<rparr>],
          callbacks = StopCallbacks k name shouldSkip\<rparr>)"

definition stop :: "world \<Rightarrow> mkey \<Rightarrow> name \<Rightarrow> options \<Rightarrow> error + ref \<times> world" where
  "stop w k name options =
     (case getResourcesManager w k of
        Inl e \<Rightarrow> Inl e
      | Inr this \<Rightarrow>
          if \<not> hasStart (crud this) then Inl (ResourceNoStartError (fst k) (snd k))
          else if \<not> hasStop (crud this) then Inl (ResourceNoStopError (fst k) (snd k))
          else
            let shouldSkip = (stopTaskList this name \<noteq> None);
                startTaskList' = startTaskList this name;
                resourceAdapter = getAdapter this name
            in (case getStopDeps w (resourceDependents this name) of
                  Inl e \<Rightarrow> Inl e
                | Inr dependents \<Rightarrow>
                    (case getStopDeps w (directResourceDependents this name) of
                       Inl e \<Rightarrow> Inl e
                     | Inr directDependents \<Rightarrow>
                         let r = nextRef w;
                             w1 = newTaskList w
                                    (newStopTaskList k name options shouldSkip startTaskList'
                                       resourceAdapter dependents directDependents)
                         in Inr (r,
                               if \<not> shouldSkip
                               then updManager w1 k
                                      (\<lambda>m. m\<lparr>stopTaskList := (stopTaskList m)(name \<mapsto> r)\<rparr>)
                               else w1))))"

section \<open>Lifecycle callbacks\<close>

text \<open>\<^verbatim>\<open>setFromContext\<close> of \<^verbatim>\<open>create\<close>; \<open>r\<close> identifies the call whose \<^verbatim>\<open>set\<close>
  variable it reads and writes. The second component is the error thrown by
  \<^verbatim>\<open>_addDependents\<close>, if any; \<^verbatim>\<open>_update$.next()\<close> is then not reached.\<close>

definition setFromContext :: "world \<Rightarrow> mkey \<Rightarrow> name \<Rightarrow> ref \<Rightarrow> ctx \<Rightarrow> world \<times> error option" where
  "setFromContext w k name r c =
     (if \<not> closureSet w r
      then
        let w1 = w\<lparr>closureSet := (closureSet w)(r := True)\<rparr>;
            w2 = updManager w1 k
                   (\<lambda>m. m\<lparr>resourceAdapters :=
                             AList.update name (ctx_resourceAdapter c) (resourceAdapters m)\<rparr>);
            dependencies = orEmpty (ctx_dependencies c);
            dependents = orEmpty (ctx_dependents c);
            w3 = updManager w2 k
                   (\<lambda>m. m\<lparr>directResourceDependents :=
                             (directResourceDependents m)(name \<mapsto> dependents)\<rparr>)
        in (case addDependents w3 k name dependencies of
              (w4, Some e) \<Rightarrow> (w4, Some e)
            | (w4, None) \<Rightarrow> (update_next w4 k, None))
      else (w, None))"

definition onError :: "callbacks \<Rightarrow> error \<Rightarrow> ctx \<Rightarrow> world \<Rightarrow> world" where
  "onError cb err c w =
     (case cb of
        CreateCallbacks k name options shouldSkip r \<Rightarrow>
          if \<not> shouldSkip
          then (case setFromContext w k name r c of
                  (w1, None) \<Rightarrow> w1
                | (w1, Some e) \<Rightarrow> w1\<lparr>thrown := thrown w1 @ [e]\<rparr>)
          else w
      | _ \<Rightarrow> w)"

definition onComplete :: "callbacks \<Rightarrow> world \<Rightarrow> world" where
  "onComplete cb w =
     (case cb of
        StopCallbacks k name shouldSkip \<Rightarrow>
          updManager w k
            (\<lambda>m. m\<lparr>resourceAdaptersStarted := (resourceAdaptersStarted m)(name \<mapsto> False)\<rparr>)
      | _ \<Rightarrow> w)"

definition onDone :: "callbacks \<Rightarrow> bool \<Rightarrow> world \<Rightarrow> world" where
  "onDone cb failed w =
     (case cb of
        NoCallbacks \<Rightarrow> w
      | CreateCallbacks k name options shouldSkip r \<Rightarrow>
          if \<not> shouldSkip
          then
            let w1 = updManager w k
                       (\<lambda>m. m\<lparr>createTaskList := (createTaskList m)(name := None)\<rparr>)
            in if failed
               then (case delete w1 k name options of
                       Inl e \<Rightarrow> w1\<lparr>thrown := thrown w1 @ [e]\<rparr>
                     | Inr (r', w2) \<Rightarrow> toPromise_catch w2 r')
               else w1
          else w
      | DeleteCallbacks k name shouldSkip \<Rightarrow>
          update_next
            (if \<not> shouldSkip
             then updManager w k
                    (\<lambda>m. m\<lparr>deleteTaskList := (deleteTaskList m)(name := None)\<rparr>)
             else w) k
      | StartCallbacks k name options shouldSkip \<Rightarrow>
          if \<not> shouldSkip
          then
            let w1 = updManager w k
                       (\<lambda>m. m\<lparr>resourceAdaptersStarted :=
                                 (resourceAdaptersStarted m)(name \<mapsto> True)\<rparr>);
                w2 = updManager w1 k
                       (\<lambda>m. m\<lparr>startTaskList := (startTaskList m)(name := None)\<rparr>)
            in if failed
               then (case stop w2 k name options of
                       Inl e \<Rightarrow> w2\<lparr>thrown := thrown w2 @ [e]\<rparr>
                     | Inr (r', w3) \<Rightarrow> update_next (toPromise_catch w3 r') k)
               else update_next w2 k
          else update_next w k
      | StopCallbacks k name shouldSkip \<Rightarrow>
          update_next
            (if \<not> shouldSkip
             then updManager w k
                    (\<lambda>m. m\<lparr>stopTaskList := (stopTaskList m)(name := None)\<rparr>)
             else w) k)"


section \<open>Reading dependency files, destroying adapters\<close>

text \<open>\<^verbatim>\<open>_readDeps\<close>; the argument is what \<^verbatim>\<open>fs.readJSON(depsPath)\<close> settles with.\<close>

definition readDeps :: "error + ResourceDependency list \<Rightarrow> error + ResourceDependency list" where
  "readDeps readJSON =
     (case readJSON of
        Inr deps \<Rightarrow> Inr deps
      | Inl err \<Rightarrow> if code err = Some ''ENOENT'' then Inr [] else Inl err)"

text \<open>\<^verbatim>\<open>_destroy\<close>: the entry is deleted, then \<^verbatim>\<open>resourceAdapter.destroy()\<close> is
  awaited; \<open>adapterDestroy\<close> tells how that promise settles. Calling \<^verbatim>\<open>destroy\<close> on
  \<^verbatim>\<open>undefined\<close> is a TypeError.\<close>

definition destroy_p ::
  "(adapter \<Rightarrow> outcome) \<Rightarrow> world \<Rightarrow> mkey \<Rightarrow> name \<Rightarrow> adapter option \<Rightarrow> outcome \<times> world" where
  "destroy_p adapterDestroy w k name resourceAdapter =
     (let w1 = updManager w k
                 (\<lambda>m. m\<lparr>resourceAdapters := AList.delete name (resourceAdapters m)\<rparr>)
      in (case resourceAdapter of
            None \<Rightarrow> (Rejected TypeError, w1)
          | Some a \<Rightarrow> (adapterDestroy a, w1)))"

text \<open>The manager's \<^verbatim>\<open>destroy()\<close>: every \<^verbatim>\<open>_destroy\<close> runs up to its first
  \<^verbatim>\<open>await\<close> when it is called, in the order of the entries, and its rejection is
  caught and dropped.\<close>

definition destroy :: "(adapter \<Rightarrow> outcome) \<Rightarrow> world \<Rightarrow> mkey \<Rightarrow> world" where
  "destroy adapterDestroy w k =
     (case managers w k of
        None \<Rightarrow> w
      | Some this \<Rightarrow>
          update_next
            (fold (\<lambda>(name, resourceAdapter) w'.
                     snd (destroy_p adapterDestroy w' k name resourceAdapter))
               (resourceAdapters this) w) k)"

text \<open>The task \<^verbatim>\<open>Execute final cleanup\<close> of \<^verbatim>\<open>delete\<close>; \<open>removeFiles\<close> tells how
  the \<^verbatim>\<open>Promise.all\<close> of the three file removals settles.\<close>

definition finalCleanup ::
  "(adapter \<Rightarrow> outcome) \<Rightarrow> outcome \<Rightarrow> world \<Rightarrow> mkey \<Rightarrow> name \<Rightarrow> adapter option
     \<Rightarrow> outcome \<times> world" where
  "finalCleanup adapterDestroy removeFiles w k name resourceAdapter =
     (case destroy_p adapterDestroy w k name resourceAdapter of
        (Rejected e, w1) \<Rightarrow> (Rejected e, w1)
      | (Resolved, w1) \<Rightarrow>
          let w2 = w1\<lparr>releasedPorts := releasedPorts w1 @ [(fst k, snd k, name)]\<rparr>
          in (case removeFiles of
                Rejected e \<Rightarrow> (Rejected e, w2)
              | Resolved \<Rightarrow>
                  (Resolved,
                   updManager w2 k
                     (\<lambda>m. m\<lparr>resourceDependents := (resourceDependents m)(name := None),
                            directResourceDependents :=
                              (directResourceDependents m)(name := None)\<rparr>))))"

section \<open>Manager initialisation\<close>

text \<open>What \<^verbatim>\<open>init\<close> gets from its collaborators: how the four \<^verbatim>\<open>ensureDir\<close>
  settle, the names \<^verbatim>\<open>_resourcesReady.getAll()\<close> yields,
  \<^verbatim>\<open>masterResourceAdapter.initResourceAdapter\<close>, and \<^verbatim>\<open>fs.readJSON\<close> by path.\<close>

record initEnv =
  ensureDirs :: outcome
  readyGetAll :: "error + name list"
  initResourceAdapter :: "name \<Rightarrow> error + adapter"
  readJSON :: "string \<Rightarrow> error + ResourceDependency list"

definition getDirectDependentsPath :: "manager \<Rightarrow> name \<Rightarrow> string" where
  "getDirectDependentsPath m name = dataPath m @ ''/dependents/'' @ name @ ''.json''"

definition getDependenciesPath :: "manager \<Rightarrow> name \<Rightarrow> string" where
  "getDependenciesPath m name = dataPath m @ ''/dependencies/'' @ name @ ''.json''"

definition init_p :: "error + adapter \<Rightarrow> world \<Rightarrow> mkey \<Rightarrow> name \<Rightarrow> outcome \<times> world" where
  "init_p initialised w k name =
     (case initialised of
        Inl e \<Rightarrow> (Rejected e, w)
      | Inr a \<Rightarrow>
          (Resolved,
           updManager w k
             (\<lambda>m. m\<lparr>resourceAdapters := AList.update name (Some a) (resourceAdapters m)\<rparr>)))"

fun firstDuplicate :: "name list \<Rightarrow> name list \<Rightarrow> name option" where
  "firstDuplicate found [] = None"
| "firstDuplicate found (n # ns) =
     (if n \<in> set found then Some n else firstDuplicate (n # found) ns)"

text \<open>The function \<^verbatim>\<open>init\<close> maps over the ready names, for one name: the error of the
  \<^verbatim>\<open>InitError\<close> it returns (if any) and the server afterwards. Of several rejections of
  the inner \<^verbatim>\<open>Promise.all\<close> the leftmost is reported; an adapter that
  \<^verbatim>\<open>initResourceAdapter\<close> produced stays in the map when a dependency file cannot be
  read.\<close>

definition initResource :: "initEnv \<Rightarrow> mkey \<Rightarrow> name \<Rightarrow> world \<Rightarrow> error option \<times> world" where
  "initResource env k name w =
     (case getResourcesManager w k of
        Inl e \<Rightarrow> (Some e, w)
      | Inr this \<Rightarrow>
          let (o1, w1) = init_p (initResourceAdapter env name) w k name;
              dependencies = readDeps (readJSON env (getDependenciesPath this name));
              dependents = readDeps (readJSON env (getDirectDependentsPath this name))
          in (case o1 of
                Rejected e \<Rightarrow> (Some e, w1)
              | Resolved \<Rightarrow>
                  (case dependencies of
                     Inl e \<Rightarrow> (Some e, w1)
                   | Inr dcs \<Rightarrow>
                       (case dependents of
                          Inl e \<Rightarrow> (Some e, w1)
                        | Inr dts \<Rightarrow>
                            let w2 = updManager w1 k
                                       (\<lambda>m. m\<lparr>directResourceDependents :=
                                                 (directResourceDependents m)(name \<mapsto> dts)\<rparr>);
                                (w3, err) = addDependents w2 k name dcs
                            in (err, w3)))))"

text \<open>The names are taken one after the other, in the order of the list: the
  interleaving of the real promises depends on the file system's timing, which no
  statement below depends on.\<close>

fun initEach :: "initEnv \<Rightarrow> mkey \<Rightarrow> name list \<Rightarrow> world \<Rightarrow> (name \<times> error) list \<times> world" where
  "initEach env k [] w = ([], w)"
| "initEach env k (name # names) w =
     (let (err, w1) = initResource env k name w;
          (errs, w2) = initEach env k names w1
      in ((case err of None \<Rightarrow> errs | Some e \<Rightarrow> (name, e) # errs), w2))"

definition init :: "initEnv \<Rightarrow> world \<Rightarrow> mkey \<Rightarrow> error + (name \<times> error) list \<times> world" where
  "init env w k =
     (case getResourcesManager w k of
        Inl e \<Rightarrow> Inl e
      | Inr this \<Rightarrow>
          (case ensureDirs env of
             Rejected e \<Rightarrow> Inl e
           | Resolved \<Rightarrow>
               (case readyGetAll env of
                  Inl e \<Rightarrow> Inl e
                | Inr resources \<Rightarrow>
                    (case firstDuplicate [] resources of
                       Some n \<Rightarrow> Inl (DuplicateResourceName n)
                     | None \<Rightarrow>
                         let w1 = updManager w k (\<lambda>m. m\<lparr>resourceAdapters := []\<rparr>);
                             (results, w2) = initEach env k resources w1
                         in Inr (results, update_next w2 k)))))"

section \<open>Running a start pipeline\<close>

datatype event =
    StartInvoked mkey name
  | StartThrew mkey name
  | StartSettled mkey name bool
  | AdapterStartCalled mkey name adapter
  | AbortCalled ref

definition isEnabled :: "world \<Rightarrow> enabled \<Rightarrow> bool" where
  "isEnabled w en =
     (case en of
        Always \<Rightarrow> True
      | EnabledWhen b \<Rightarrow> b
      | EnabledIfStarted k name \<Rightarrow>
          (case managers w k of
             None \<Rightarrow> False
           | Some m \<Rightarrow> resourceAdaptersStarted m name = Some True)
      | EnabledIfHooks k \<Rightarrow>
          (case managers w k of None \<Rightarrow> False | Some m \<Rightarrow> createHooks m \<noteq> []))"

text \<open>Modelled from the spec: the TaskList class is not in the sources. By section 4.1 of
  the spec a list is sequential unless \<^verbatim>\<open>concurrent\<close> is set; \<^verbatim>\<open>enabled\<close> and
  \<^verbatim>\<open>skip\<close> are evaluated at each task's turn, a task that is not enabled is omitted,
  a skipped one is not run; each task settles before the next begins, and after a task
  fails the remaining ones are not started. \<open>run\<close> executes one task and returns how it
  settled, the server afterwards and the events it produced; \<open>None\<close> is a run this
  model does not follow to its end.\<close>

fun runTasks ::
  "(task \<Rightarrow> world \<Rightarrow> (outcome \<times> world \<times> event list) option) \<Rightarrow> task list \<Rightarrow> world
     \<Rightarrow> (outcome \<times> world \<times> event list) option" where
  "runTasks run [] w = Some (Resolved, w, [])"
| "runTasks run (t # ts) w =
     (if \<not> isEnabled w (enabled t) then runTasks run ts w
      else if skip t \<noteq> NoSkip then runTasks run ts w
      else
        (case run t w of
           None \<Rightarrow> None
         | Some (Rejected e, w1, tr) \<Rightarrow> Some (Rejected e, w1, tr)
         | Some (Resolved, w1, tr) \<Rightarrow>
             (case runTasks run ts w1 of
                None \<Rightarrow> None
              | Some (oc, w2, tr') \<Rightarrow> Some (oc, w2, tr @ tr'))))"


definition freshCtx :: ctx where
  "freshCtx = \<lparr>ctx_resourceAdapter = None, ctx_dependencies = None, ctx_dependents = None\<rparr>"


section \<open>Observations and example servers\<close>

definition adaptersOf :: "world \<Rightarrow> mkey \<Rightarrow> (name \<times> adapter option) list" where
  "adaptersOf w k = (case managers w k of None \<Rightarrow> [] | Some m \<Rightarrow> resourceAdapters m)"

definition startedOf :: "world \<Rightarrow> mkey \<Rightarrow> name \<Rightarrow> bool option" where
  "startedOf w k name =
     (case managers w k of None \<Rightarrow> None | Some m \<Rightarrow> resourceAdaptersStarted m name)"

definition directDependentsOf :: "world \<Rightarrow> mkey \<Rightarrow> name \<Rightarrow> ResourceDependency list option" where
  "directDependentsOf w k name =
     (case managers w k of None \<Rightarrow> None | Some m \<Rightarrow> directResourceDependents m name)"

definition dependentsOf :: "world \<Rightarrow> mkey \<Rightarrow> name \<Rightarrow> ResourceDependency list" where
  "dependentsOf w k name =
     (case managers w k of None \<Rightarrow> [] | Some m \<Rightarrow> orEmpty (resourceDependents m name))"

text \<open>The four in-flight maps and the four operations, by operation kind.\<close>

definition inFlight :: "op \<Rightarrow> manager \<Rightarrow> name \<rightharpoonup> ref" where
  "inFlight opn m =
     (case opn of
        Create \<Rightarrow> createTaskList m
      | Delete \<Rightarrow> deleteTaskList m
      | Start \<Rightarrow> startTaskList m
      | Stop \<Rightarrow> stopTaskList m)"

definition slotOf :: "world \<Rightarrow> mkey \<Rightarrow> op \<Rightarrow> name \<Rightarrow> ref option" where
  "slotOf w k opn name =
     (case managers w k of None \<Rightarrow> None | Some m \<Rightarrow> inFlight opn m name)"

definition invoke :: "op \<Rightarrow> world \<Rightarrow> mkey \<Rightarrow> name \<Rightarrow> options \<Rightarrow> error + ref \<times> world" where
  "invoke opn w k name options =
     (case opn of
        Create \<Rightarrow> create w k name options
      | Delete \<Rightarrow> delete w k name options
      | Start \<Rightarrow> start w k name options
      | Stop \<Rightarrow> stop w k name options)"

definition returnedRef :: "error + ref \<times> world \<Rightarrow> ref option" where
  "returnedRef res = (case res of Inl e \<Rightarrow> None | Inr (r, w') \<Rightarrow> Some r)"

definition worldAfter :: "world \<Rightarrow> error + ref \<times> world \<Rightarrow> world" where
  "worldAfter w res = (case res of Inl e \<Rightarrow> w | Inr (r, w') \<Rightarrow> w')"

text \<open>What \<^verbatim>\<open>setFromContext(ctx)\<close> leaves behind for \<open>name\<close>: the context's adapter in
  the adapters map, the context's dependents as direct dependents, and \<open>name\<close> among the
  dependents of each of the context's dependencies.\<close>

definition installed :: "world \<Rightarrow> mkey \<Rightarrow> name \<Rightarrow> ctx \<Rightarrow> bool" where
  "installed w k name c =
     (map_of (adaptersOf w k) name = Some (ctx_resourceAdapter c) \<and>
      directDependentsOf w k name = Some (orEmpty (ctx_dependents c)) \<and>
      (\<forall>d \<in> set (orEmpty (ctx_dependencies c)).
          \<lparr>plugin = fst k, resourceType = snd k, depName = name\<rparr>
            \<in> set (dependentsOf w (plugin d, resourceType d) (depName d))))"

text \<open>The dependency lists a TaskList hands to \<^verbatim>\<open>_deleteDeps\<close>, \<^verbatim>\<open>_startDeps\<close>
  or \<^verbatim>\<open>_stopDeps\<close>, in the order of its tasks.\<close>

fun cascade :: "task_body \<Rightarrow> ResourceDependency list option" where
  "cascade (DeleteDeps deps) = Some deps"
| "cascade (StartDeps deps) = Some deps"
| "cascade (StopDeps deps) = Some deps"
| "cascade _ = None"

definition cascades :: "TaskList \<Rightarrow> ResourceDependency list list" where
  "cascades l = List.map_filter (\<lambda>t. cascade (task t)) (tasks l)"



text \<open>The task \<^verbatim>\<open>_startDeps\<close> builds for one dependency.\<close>

definition startTask :: "ResourceDependency \<Rightarrow> task" where
  "startTask d =
     \<lparr>enabled = Always, skip = NoSkip,
      task = Call Start (plugin d, resourceType d) (depName d) emptyOptions\<rparr>"


text \<open>Every TaskList stored in an in-flight map was allocated earlier.\<close>

definition refsAllocated :: "world \<Rightarrow> bool" where
  "refsAllocated w =
     (\<forall>k opn name r. slotOf w k opn name = Some r \<longrightarrow> r < nextRef w)"

text \<open>A server with four resource types: nodes and wallets can be started and stopped,
  networks can be neither, and a compiler can be started but not stopped. Node
  \<open>main\<close> has created the wallets \<open>w1\<close> and \<open>w2\<close>.\<close>

definition kNode :: mkey where "kNode = (''neo'', ''node'')"
definition kWallet :: mkey where "kWallet = (''neo'', ''wallet'')"
definition kNetwork :: mkey where "kNetwork = (''neo'', ''network'')"
definition kCompiler :: mkey where "kCompiler = (''neo'', ''compiler'')"

definition crudStartStop :: CRUD where
  "crudStartStop = \<lparr>startOnCreate = True, hasStart = True, hasStop = True\<rparr>"

definition crudPlain :: CRUD where
  "crudPlain = \<lparr>startOnCreate = False, hasStart = False, hasStop = False\<rparr>"

definition crudStartOnly :: CRUD where
  "crudStartOnly = \<lparr>startOnCreate = False, hasStart = True, hasStop = False\<rparr>"

definition wallet1 :: ResourceDependency where
  "wallet1 = \<lparr>plugin = ''neo'', resourceType = ''wallet'', depName = ''w1''\<rparr>"

definition wallet2 :: ResourceDependency where
  "wallet2 = \<lparr>plugin = ''neo'', resourceType = ''wallet'', depName = ''w2''\<rparr>"

definition nodeManager :: manager where
  "nodeManager =
     (constructor crudStartStop ''/data/node'')
       \<lparr>resourceAdapters := [(''main'', Some 7)],
        directResourceDependents := [''main'' \<mapsto> [wallet1, wallet2]]\<rparr>"

definition walletManager :: manager where
  "walletManager =
     (constructor crudStartStop ''/data/wallet'')
       \<lparr>resourceAdapters := [(''w1'', Some 1), (''w2'', Some 2)]\<rparr>"

definition exampleServer :: world where
  "exampleServer =
     emptyWorld
       \<lparr>managers :=
          [kNode \<mapsto> nodeManager, kWallet \<mapsto> walletManager,
           kNetwork \<mapsto> constructor crudPlain ''/data/network'',
           kCompiler \<mapsto> constructor crudStartOnly ''/data/compiler'']\<rparr>"



text \<open>What \<^verbatim>\<open>init\<close> of the node manager finds: one ready name, an adapter that
  initialises, and no dependency files.\<close>

definition exampleInit :: initEnv where
  "exampleInit =
     \<lparr>ensureDirs = Resolved, readyGetAll = Inr [''main''],
      initResourceAdapter = (\<lambda>n. Inr 7),
      readJSON = (\<lambda>p. Inl (SystemError ''ENOENT''))\<rparr>"

text \<open>The context of a create of node \<open>second\<close> whose adapter creation failed after
  it had put adapter 9 into the context, with wallet \<open>w1\<close> as a dependency.\<close>

definition partialCtx :: ctx where
  "partialCtx =
     \<lparr>ctx_resourceAdapter = Some 9, ctx_dependencies = Some [wallet1], ctx_dependents = None\<rparr>"

definition creatingServer :: world where
  "creatingServer = worldAfter exampleServer (create exampleServer kNode ''second'' ''{}'')"

text \<open>That server after the create failed with \<open>disk full\<close>: \<^verbatim>\<open>onError(error, ctx)\<close>,
  then \<^verbatim>\<open>onDone(true)\<close>.\<close>

definition failedCreate :: world where
  "failedCreate =
     onDone (CreateCallbacks kNode ''second'' ''{}'' False 0) True
       (onError (CreateCallbacks kNode ''second'' ''{}'' False 0) (OtherError ''disk full'')
          partialCtx creatingServer)"






text \<open>The example server with node \<open>main\<close> started, and then with a stop,
  respectively a delete, of \<open>main\<close> in flight.\<close>

definition startedServer :: world where
  "startedServer =
     updManager exampleServer kNode
       (\<lambda>m. m\<lparr>resourceAdaptersStarted := [''main'' \<mapsto> True]\<rparr>)"

definition stoppingServer :: world where
  "stoppingServer = worldAfter startedServer (stop startedServer kNode ''main'' ''{}'')"

definition deletingServer :: world where
  "deletingServer = worldAfter startedServer (delete startedServer kNode ''main'' ''{}'')"

text \<open>The example server while an operation on node \<open>main\<close> is in flight.\<close>

definition busyServer :: "op \<Rightarrow> world" where
  "busyServer opn = worldAfter exampleServer (invoke opn exampleServer kNode ''main'' ''{}'')"

section \<open>Auxiliary facts\<close>

lemma managers_updManager:
  "managers (updManager w k f) k' =
     (if k' = k then map_option f (managers w k) else managers w k')"
  by (simp add: updManager_def split: option.splits)

lemma filterDeps_error:
  "filterDeps p w ds = Inl e \<Longrightarrow> \<exists>a b. e = UnknownResourcesManager a b"
  by (induction ds arbitrary: e)
     (auto simp: getResourcesManager_def split: option.splits sum.splits if_splits)

lemma managers_exampleServer:
  "managers exampleServer kNode = Some nodeManager"
  "managers exampleServer kWallet = Some walletManager"
  "managers exampleServer kNetwork = Some (constructor crudPlain ''/data/network'')"
  "managers exampleServer kCompiler = Some (constructor crudStartOnly ''/data/compiler'')"
  by (simp_all add: exampleServer_def emptyWorld_def kNode_def kWallet_def kNetwork_def
        kCompiler_def)

lemma crud_examples:
  "crud nodeManager = crudStartStop" "crud walletManager = crudStartStop"
  "crud (constructor c dp) = c"
  by (simp_all add: nodeManager_def walletManager_def constructor_def)

section \<open>Synchronous precondition errors of start and stop\<close>

lemma start_no_start:
  "managers w k = Some this \<Longrightarrow> \<not> hasStart (crud this) \<Longrightarrow>
   start w k name options = Inl (ResourceNoStartError (fst k) (snd k))"
  by (simp add: start_def getResourcesManager_def)

lemma start_no_stop:
  "managers w k = Some this \<Longrightarrow> hasStart (crud this) \<Longrightarrow> \<not> hasStop (crud this) \<Longrightarrow>
   start w k name options = Inl (ResourceNoStopError (fst k) (snd k))"
  by (simp add: start_def getResourcesManager_def)

lemma stop_no_start:
  "managers w k = Some this \<Longrightarrow> \<not> hasStart (crud this) \<Longrightarrow>
   stop w k name options = Inl (ResourceNoStartError (fst k) (snd k))"
  by (simp add: stop_def getResourcesManager_def)

lemma stop_no_stop:
  "managers w k = Some this \<Longrightarrow> hasStart (crud this) \<Longrightarrow> \<not> hasStop (crud this) \<Longrightarrow>
   stop w k name options = Inl (ResourceNoStopError (fst k) (snd k))"
  by (simp add: stop_def getResourcesManager_def)

lemma start_throws:
  assumes "managers w k = Some this" "hasStart (crud this)" "hasStop (crud this)"
    and "start w k name options = Inl e"
  shows "getStartDeps w (directResourceDependents this name) = Inl e"
  using assms
  by (cases "getStartDeps w (directResourceDependents this name)")
     (simp_all add: start_def getResourcesManager_def Let_def)

lemma stop_throws:
  assumes "managers w k = Some this" "hasStart (crud this)" "hasStop (crud this)"
    and "stop w k name options = Inl e"
  shows "getStopDeps w (resourceDependents this name) = Inl e \<or>
         getStopDeps w (directResourceDependents this name) = Inl e"
  using assms
  by (cases "getStopDeps w (resourceDependents this name)";
      cases "getStopDeps w (directResourceDependents this name)")
     (simp_all add: stop_def getResourcesManager_def Let_def)

text \<open>
  Claim C7. \<^verbatim>\<open>start\<close> and \<^verbatim>\<open>stop\<close> both throw before any TaskList is built:
  ResourceNoStartError when the resource type's CRUD has no \<^verbatim>\<open>start\<close> (this check
  comes first, so it also wins when \<^verbatim>\<open>stop\<close> is missing as well), ResourceNoStopError
  when it has \<^verbatim>\<open>start\<close> but no \<^verbatim>\<open>stop\<close>; when both are defined neither of the two
  errors is thrown.
\<close>

theorem start_stop_throw_synchronously:
  assumes "managers w k = Some this"
  shows "(\<not> hasStart (crud this) \<longrightarrow>
            start w k name options = Inl (ResourceNoStartError (fst k) (snd k)) \<and>
            stop w k name options = Inl (ResourceNoStartError (fst k) (snd k))) \<and>
         (hasStart (crud this) \<and> \<not> hasStop (crud this) \<longrightarrow>
            start w k name options = Inl (ResourceNoStopError (fst k) (snd k)) \<and>
            stop w k name options = Inl (ResourceNoStopError (fst k) (snd k))) \<and>
         (hasStart (crud this) \<and> hasStop (crud this) \<longrightarrow>
            (\<forall>a b. start w k name options \<noteq> Inl (ResourceNoStartError a b) \<and>
                   start w k name options \<noteq> Inl (ResourceNoStopError a b) \<and>
                   stop w k name options \<noteq> Inl (ResourceNoStartError a b) \<and>
                   stop w k name options \<noteq> Inl (ResourceNoStopError a b)))"
proof (intro conjI impI allI)
  fix a b
  assume h: "hasStart (crud this) \<and> hasStop (crud this)"
  have s: "\<And>e. start w k name options = Inl e \<Longrightarrow> \<exists>a b. e = UnknownResourcesManager a b"
    using start_throws [OF assms] h filterDeps_error unfolding getStartDeps_def by blast
  have t: "\<And>e. stop w k name options = Inl e \<Longrightarrow> \<exists>a b. e = UnknownResourcesManager a b"
    using stop_throws [OF assms] h filterDeps_error unfolding getStopDeps_def by blast
  show "start w k name options \<noteq> Inl (ResourceNoStartError a b)" using s by fastforce
  show "start w k name options \<noteq> Inl (ResourceNoStopError a b)" using s by fastforce
  show "stop w k name options \<noteq> Inl (ResourceNoStartError a b)" using t by fastforce
  show "stop w k name options \<noteq> Inl (ResourceNoStopError a b)" using t by fastforce
qed (use assms in \<open>simp_all add: start_no_start start_no_stop stop_no_start stop_no_stop\<close>)

theorem start_stop_throw_synchronously_witness:
  "start exampleServer kNetwork ''n'' ''{}'' = Inl (ResourceNoStartError ''neo'' ''network'') \<and>
   stop exampleServer kNetwork ''n'' ''{}'' = Inl (ResourceNoStartError ''neo'' ''network'') \<and>
   start exampleServer kCompiler ''c'' ''{}'' = Inl (ResourceNoStopError ''neo'' ''compiler'') \<and>
   stop exampleServer kCompiler ''c'' ''{}'' = Inl (ResourceNoStopError ''neo'' ''compiler'') \<and>
   start exampleServer kNode ''main'' ''{}'' \<noteq> Inl (ResourceNoStartError ''neo'' ''node'') \<and>
   stop exampleServer kNode ''main'' ''{}'' \<noteq> Inl (ResourceNoStopError ''neo'' ''node'')"
  using start_stop_throw_synchronously [OF managers_exampleServer(3), of "''n''" "''{}''"]
    start_stop_throw_synchronously [OF managers_exampleServer(4), of "''c''" "''{}''"]
    start_stop_throw_synchronously [OF managers_exampleServer(1), of "''main''" "''{}''"]
  by (simp add: crud_examples crudPlain_def crudStartOnly_def crudStartStop_def
        kNetwork_def kCompiler_def kNode_def)

section \<open>Reading a dependency file\<close>

text \<open>
  Claim C8. \<^verbatim>\<open>_readDeps\<close> returns what \<^verbatim>\<open>fs.readJSON\<close> read; when the read fails
  with code ENOENT (the file is missing) it returns the empty list, and every other
  error is rethrown as it is.
\<close>

theorem readDeps_ENOENT_or_rethrow:
  "readDeps (Inr deps) = Inr deps \<and>
   readDeps (Inl err) = (if code err = Some ''ENOENT'' then Inr [] else Inl err)"
  by (simp add: readDeps_def)

section \<open>Destroying an adapter\<close>

lemma adaptersOf_destroy_p:
  "adaptersOf (snd (destroy_p aD w k name ra)) k' =
     (if k' = k then AList.delete name (adaptersOf w k) else adaptersOf w k')"
  by (simp add: destroy_p_def Let_def adaptersOf_def managers_updManager
           split: option.splits)

lemma adaptersOf_fold_destroy_p:
  "adaptersOf (fold (\<lambda>(name, ra) w'. snd (destroy_p aD w' k name ra)) xs w) k =
     filter (\<lambda>e. fst e \<notin> fst ` set xs) (adaptersOf w k)"
proof (induction xs arbitrary: w)
  case Nil
  then show ?case by simp
next
  case (Cons x xs)
  obtain n ra where x: "x = (n, ra)" by (cases x)
  have "filter (\<lambda>e. fst e \<notin> fst ` set xs) (AList.delete n (adaptersOf w k)) =
        filter (\<lambda>e. fst e \<notin> fst ` set (x # xs)) (adaptersOf w k)"
    by (auto simp: x AList.delete_eq intro: filter_cong)
  then show ?case
    by (simp add: x Cons.IH adaptersOf_destroy_p)
qed

lemma adaptersOf_update_next [simp]: "adaptersOf (update_next w k) k' = adaptersOf w k'"
  by (simp add: update_next_def adaptersOf_def managers_updManager split: option.splits)

lemma adaptersOf_finalCleanup:
  "adaptersOf (snd (finalCleanup aD rf w k name ra)) k' =
   adaptersOf (snd (destroy_p aD w k name ra)) k'"
proof (cases "destroy_p aD w k name ra")
  case (Pair oc w1)
  then show ?thesis
    by (cases oc; cases rf)
       (simp_all add: finalCleanup_def Let_def adaptersOf_def managers_updManager
          split: option.splits)
qed

text \<open>
  Claim C10. \<^verbatim>\<open>_destroy(name, adapter)\<close> deletes \<open>name\<close> from the adapters map before
  it awaits \<^verbatim>\<open>adapter.destroy()\<close>: whatever that promise does, and in particular when
  it rejects (the rejection is what \<^verbatim>\<open>_destroy\<close> settles with), \<open>name\<close> is no longer a
  key of the map. The same holds after the final cleanup of \<^verbatim>\<open>delete\<close>, and after the
  manager's \<^verbatim>\<open>destroy()\<close> the map is empty.
\<close>

theorem destroy_p_deletes_before_destroy:
  assumes "managers w k = Some this" and "adapterDestroy a = Rejected e"
  shows "fst (destroy_p adapterDestroy w k name (Some a)) = Rejected e \<and>
         name \<notin> fst ` set (adaptersOf (snd (destroy_p adapterDestroy w k name (Some a))) k) \<and>
         name \<notin> fst ` set (adaptersOf (snd (destroy_p adapterDestroy' w k name ra)) k) \<and>
         name \<notin> fst ` set
           (adaptersOf (snd (finalCleanup adapterDestroy' removeFiles w k name ra)) k) \<and>
         adaptersOf (destroy adapterDestroy' w k) k = []"
proof -
  have 1: "name \<notin> fst ` set (adaptersOf (snd (destroy_p f w k name x)) k)" for f x
    by (simp add: adaptersOf_destroy_p AList.delete_eq) force
  have 2: "fst (destroy_p adapterDestroy w k name (Some a)) = Rejected e"
    using assms(2) by (simp add: destroy_p_def Let_def)
  have 3: "name \<notin> fst ` set
           (adaptersOf (snd (finalCleanup adapterDestroy' removeFiles w k name ra)) k)"
    using 1 by (simp add: adaptersOf_finalCleanup)
  have 4: "adaptersOf (destroy adapterDestroy' w k) k = []"
  proof -
    have "adaptersOf w k = resourceAdapters this"
      using assms by (simp add: adaptersOf_def)
    then show ?thesis
      using assms by (simp add: destroy_def adaptersOf_fold_destroy_p)
  qed
  from 1 2 3 4 show ?thesis by blast
qed

theorem destroy_p_deletes_before_destroy_witness:
  "fst (destroy_p (\<lambda>a. Rejected (OtherError ''busy'')) exampleServer kWallet ''w1'' (Some 1))
     = Rejected (OtherError ''busy'') \<and>
   map_of (adaptersOf exampleServer kWallet) ''w1'' = Some (Some 1) \<and>
   ''w1'' \<notin> fst ` set
     (adaptersOf
        (snd (destroy_p (\<lambda>a. Rejected (OtherError ''busy'')) exampleServer kWallet ''w1''
                (Some 1))) kWallet) \<and>
   adaptersOf (destroy (\<lambda>a. Rejected (OtherError ''busy'')) exampleServer kWallet) kWallet = []"
  using destroy_p_deletes_before_destroy
    [OF managers_exampleServer(2), of "\<lambda>a. Rejected (OtherError ''busy'')" 1
       "OtherError ''busy''" "''w1''" "\<lambda>a. Rejected (OtherError ''busy'')" "Some 1" Resolved]
  by (simp add: adaptersOf_def managers_exampleServer walletManager_def)

section \<open>Re-entering an operation\<close>

lemma create_eq:
  "managers w k = Some this \<Longrightarrow>
   create w k name options =
     Inr (nextRef w,
       if createTaskList this name = None
       then updManager
              (newTaskList w
                 (newCreateTaskList k name options (crud this) False (getAdapter this name)
                    (nextRef w)))
              k (\<lambda>m. m\<lparr>createTaskList := (createTaskList m)(name \<mapsto> nextRef w)\<rparr>)
       else newTaskList w
              (newCreateTaskList k name options (crud this) True (getAdapter this name)
                 (nextRef w)))"
  by (simp add: create_def getResourcesManager_def Let_def)

lemma delete_eq:
  "managers w k = Some this \<Longrightarrow>
   delete w k name options =
     Inr (nextRef w,
       if deleteTaskList this name = None
       then updManager
              (newTaskList w
                 (newDeleteTaskList k name options (crud this) False (startTaskList this name)
                    (createTaskList this name) (getAdapter this name)
                    (uniqueDeps (orEmpty (resourceDependents this name)
                                 @ orEmpty (directResourceDependents this name)))))
              k (\<lambda>m. m\<lparr>deleteTaskList := (deleteTaskList m)(name \<mapsto> nextRef w)\<rparr>)
       else newTaskList w
              (newDeleteTaskList k name options (crud this) True (startTaskList this name)
                 (createTaskList this name) (getAdapter this name)
                 (uniqueDeps (orEmpty (resourceDependents this name)
                              @ orEmpty (directResourceDependents this name)))))"
  by (simp add: delete_def getResourcesManager_def Let_def)

lemma start_eq:
  "managers w k = Some this \<Longrightarrow> hasStart (crud this) \<Longrightarrow> hasStop (crud this) \<Longrightarrow>
   getStartDeps w (directResourceDependents this name) = Inr deps \<Longrightarrow>
   start w k name options =
     Inr (nextRef w,
       if startTaskList this name = None
       then updManager
              (newTaskList w
                 (newStartTaskList k name options False (stopTaskList this name)
                    (getAdapter this name) (resourceAdaptersStarted this name = Some True) deps))
              k (\<lambda>m. m\<lparr>startTaskList := (startTaskList m)(name \<mapsto> nextRef w)\<rparr>)
       else newTaskList w
              (newStartTaskList k name options True (stopTaskList this name)
                 (getAdapter this name) (resourceAdaptersStarted this name = Some True) deps))"
  by (simp add: start_def getResourcesManager_def Let_def)

lemma stop_eq:
  "managers w k = Some this \<Longrightarrow> hasStart (crud this) \<Longrightarrow> hasStop (crud this) \<Longrightarrow>
   getStopDeps w (resourceDependents this name) = Inr deps \<Longrightarrow>
   getStopDeps w (directResourceDependents this name) = Inr ddeps \<Longrightarrow>
   stop w k name options =
     Inr (nextRef w,
       if stopTaskList this name = None
       then updManager
              (newTaskList w
                 (newStopTaskList k name options False (startTaskList this name)
                    (getAdapter this name) deps ddeps))
              k (\<lambda>m. m\<lparr>stopTaskList := (stopTaskList m)(name \<mapsto> nextRef w)\<rparr>)
       else newTaskList w
              (newStopTaskList k name options True (startTaskList this name)
                 (getAdapter this name) deps ddeps))"
  by (simp add: stop_def getResourcesManager_def Let_def)

lemma start_Inr:
  assumes "managers w k = Some this" "start w k name options = Inr (r, w')"
  shows "hasStart (crud this) \<and> hasStop (crud this) \<and>
         (\<exists>deps. getStartDeps w (directResourceDependents this name) = Inr deps)"
  using assms
  by (cases "getStartDeps w (directResourceDependents this name)")
     (simp_all add: start_def getResourcesManager_def split: if_splits)

lemma stop_Inr:
  assumes "managers w k = Some this" "stop w k name options = Inr (r, w')"
  shows "hasStart (crud this) \<and> hasStop (crud this) \<and>
         (\<exists>deps. getStopDeps w (resourceDependents this name) = Inr deps) \<and>
         (\<exists>deps. getStopDeps w (directResourceDependents this name) = Inr deps)"
  using assms
  by (cases "getStopDeps w (resourceDependents this name)";
      cases "getStopDeps w (directResourceDependents this name)")
     (simp_all add: stop_def getResourcesManager_def split: if_splits)

text \<open>What a duplicate invocation does: it allocates a TaskList and nothing else.\<close>

lemma invoke_duplicate:
  assumes m: "managers w k = Some this" and f: "inFlight opn this name = Some r0"
    and i: "invoke opn w k name options = Inr (r, w')"
  shows "\<exists>l. r = nextRef w \<and> w' = newTaskList w l \<and>
             (\<exists>t \<in> set (tasks l). skip t = SkipBecause (AlreadyBeing opn)) \<and>
             callbacks l =
               (case opn of
                  Create \<Rightarrow> CreateCallbacks k name options True r
                | Delete \<Rightarrow> DeleteCallbacks k name True
                | Start \<Rightarrow> StartCallbacks k name options True
                | Stop \<Rightarrow> StopCallbacks k name True)"
proof (cases opn)
  case Create
  then show ?thesis
    using f i create_eq [OF m, of name options]
    by (auto simp: invoke_def inFlight_def newCreateTaskList_def Let_def)
next
  case Delete
  then show ?thesis
    using f i delete_eq [OF m, of name options]
    by (auto simp: invoke_def inFlight_def newDeleteTaskList_def Let_def)
next
  case Start
  with i have s: "start w k name options = Inr (r, w')" by (simp add: invoke_def)
  from start_Inr [OF m s] obtain deps where
    "hasStart (crud this)" "hasStop (crud this)"
    "getStartDeps w (directResourceDependents this name) = Inr deps" by blast
  from start_eq [OF m this, of options] s f Start show ?thesis
    by (auto simp: inFlight_def newStartTaskList_def)
next
  case Stop
  with i have s: "stop w k name options = Inr (r, w')" by (simp add: invoke_def)
  from stop_Inr [OF m s] obtain deps ddeps where
    "hasStart (crud this)" "hasStop (crud this)"
    "getStopDeps w (resourceDependents this name) = Inr deps"
    "getStopDeps w (directResourceDependents this name) = Inr ddeps" by blast
  from stop_eq [OF m this, of options] s f Stop show ?thesis
    by (auto simp: inFlight_def newStopTaskList_def Let_def)
qed

lemma slotOf_newTaskList [simp]: "slotOf (newTaskList w l) k opn name = slotOf w k opn name"
  by (simp add: slotOf_def newTaskList_def)


lemmas example_defs =
  exampleServer_def emptyWorld_def kNode_def kWallet_def kNetwork_def kCompiler_def
  nodeManager_def walletManager_def constructor_def crudStartStop_def crudPlain_def
  crudStartOnly_def wallet1_def wallet2_def

lemmas op_defs =
  create_def delete_def start_def stop_def getResourcesManager_def getAdapter_def
  getStartDeps_def getStopDeps_def orEmpty_def newTaskList_def updManager_def
  uniqueDeps_def uniqBy_def depKey_def




lemma busy_Stop:
  "slotOf (busyServer Stop) kNode Stop ''main'' = Some 0"
  "returnedRef (invoke Stop (busyServer Stop) kNode ''main'' ''{}'') = Some 1"
  by (simp_all add: busyServer_def worldAfter_def returnedRef_def invoke_def slotOf_def
        inFlight_def op_defs example_defs Let_def)

lemma slotOf_update_next [simp]: "slotOf (update_next v k) k' opn n = slotOf v k' opn n"
  by (cases opn)
     (simp_all add: slotOf_def update_next_def managers_updManager inFlight_def
        split: option.splits)

lemma update_next_frame [simp]:
  "spawned (update_next v k) = spawned v" "nextRef (update_next v k) = nextRef v"
  "taskLists (update_next v k) = taskLists v" "thrown (update_next v k) = thrown v"
  by (simp_all add: update_next_def updManager_def split: option.splits)

lemma startedOf_update_next [simp]: "startedOf (update_next v k) k' n = startedOf v k' n"
  by (simp add: startedOf_def update_next_def managers_updManager split: option.splits)

lemma invoke_Inr_manager:
  "invoke opn w k name options = Inr (r, w') \<Longrightarrow> \<exists>this. managers w k = Some this"
  by (cases opn; cases "managers w k")
     (simp_all add: invoke_def create_def delete_def start_def stop_def
        getResourcesManager_def)

lemma slotOf_register:
  "slotOf (updManager (newTaskList w l) k f) k' opn' n' =
     (if k' = k then (case managers w k of None \<Rightarrow> None | Some m \<Rightarrow> inFlight opn' (f m) n')
      else slotOf w k' opn' n')"
  by (simp add: slotOf_def managers_updManager newTaskList_def split: option.splits)

lemma invoke_slots:
  assumes "invoke opn w k name options = Inr (r, w')"
  shows "r = nextRef w \<and> nextRef w' = Suc (nextRef w) \<and>
         (\<forall>k' opn' n'. slotOf w' k' opn' n' =
            (if slotOf w k opn name = None \<and> k' = k \<and> opn' = opn \<and> n' = name
             then Some r else slotOf w k' opn' n'))"
proof -
  from invoke_Inr_manager [OF assms] obtain this where m: "managers w k = Some this" ..
  have n: "nextRef (updManager (newTaskList w l) k f) = Suc (nextRef w)"
          "nextRef (newTaskList w l) = Suc (nextRef w)" for l f
    by (simp_all add: updManager_def newTaskList_def split: option.splits)
  have s: "slotOf w k opn' n' = inFlight opn' this n'" for opn' n'
    using m by (simp add: slotOf_def)
  show ?thesis
  proof (cases opn)
    case Create
    with assms m create_eq [OF m, of name options] show ?thesis
      by (cases "createTaskList this name")
         (auto simp: invoke_def n slotOf_def [of w] slotOf_register inFlight_def split: op.splits)
  next
    case Delete
    with assms m delete_eq [OF m, of name options] show ?thesis
      by (cases "deleteTaskList this name")
         (auto simp: invoke_def n slotOf_def [of w] slotOf_register inFlight_def split: op.splits)
  next
    case Start
    with assms have st: "start w k name options = Inr (r, w')" by (simp add: invoke_def)
    from start_Inr [OF m st] obtain deps where
      "hasStart (crud this)" "hasStop (crud this)"
      "getStartDeps w (directResourceDependents this name) = Inr deps" by blast
    from start_eq [OF m this, of options] st Start m show ?thesis
      by (cases "startTaskList this name")
         (auto simp: n slotOf_def [of w] slotOf_register inFlight_def split: op.splits)
  next
    case Stop
    with assms have st: "stop w k name options = Inr (r, w')" by (simp add: invoke_def)
    from stop_Inr [OF m st] obtain deps ddeps where
      "hasStart (crud this)" "hasStop (crud this)"
      "getStopDeps w (resourceDependents this name) = Inr deps"
      "getStopDeps w (directResourceDependents this name) = Inr ddeps" by blast
    from stop_eq [OF m this, of options] st Stop m show ?thesis
      by (cases "stopTaskList this name")
         (auto simp: n slotOf_def [of w] slotOf_register inFlight_def split: op.splits)
  qed
qed

lemma invoke_refsAllocated:
  assumes "refsAllocated w" and "invoke opn w k name options = Inr (r, w')"
  shows "refsAllocated w'"
  using assms(1) invoke_slots [OF assms(2)]
  unfolding refsAllocated_def
  by (metis less_Suc_eq option.inject)

lemma refsAllocated_worldAfter:
  "refsAllocated w \<Longrightarrow> refsAllocated (worldAfter w (invoke opn w k name options))"
  by (cases "invoke opn w k name options")
     (auto simp: worldAfter_def dest: invoke_refsAllocated)

text \<open>
  Claim C9, as amended. A duplicate invocation (one made while an operation of the same
  kind is in flight for the name) leaves the in-flight maps alone and compensates
  nothing: the call changes no manager, the TaskList it returns is stored in no in-flight
  map (and no later invocation can store it, since an invocation stores only the
  reference it allocates, see \<open>invoke_slots\<close>); when that TaskList settles, its
  \<^verbatim>\<open>onDone\<close> clears no in-flight slot and starts no compensation (no TaskList is
  built, no promise is spawned): for \<^verbatim>\<open>create\<close> it does nothing, for the other three
  it only emits \<^verbatim>\<open>_update$\<close>; its \<^verbatim>\<open>onError\<close> does nothing. Nothing is said of the
  tasks and of \<^verbatim>\<open>onComplete\<close> of the duplicate, which are not all guarded.
\<close>

theorem duplicate_invocation_clears_no_slot:
  assumes "managers w k = Some this" and "inFlight opn this name = Some r0"
    and "refsAllocated w"
    and "invoke opn w k name options = Inr (r, w')"
  shows "managers w' = managers w \<and> spawned w' = spawned w \<and>
         (\<forall>k' opn' n'. slotOf w' k' opn' n' \<noteq> Some r) \<and>
         refsAllocated w' \<and> r < nextRef w' \<and>
         (\<exists>l. taskLists w' r = Some l \<and>
              (\<forall>failed v. onDone (callbacks l) failed v =
                            (if opn = Create then v else update_next v k)) \<and>
              (\<forall>failed v k' opn' n'.
                  slotOf (onDone (callbacks l) failed v) k' opn' n' = slotOf v k' opn' n') \<and>
              (\<forall>failed v. spawned (onDone (callbacks l) failed v) = spawned v \<and>
                           nextRef (onDone (callbacks l) failed v) = nextRef v) \<and>
              (\<forall>e c v. onError (callbacks l) e c v = v))"
proof -
  from invoke_duplicate [OF assms(1,2,4)] obtain l where
    l: "r = nextRef w" "w' = newTaskList w l"
    and cb: "callbacks l =
               (case opn of
                  Create \<Rightarrow> CreateCallbacks k name options True r
                | Delete \<Rightarrow> DeleteCallbacks k name True
                | Start \<Rightarrow> StartCallbacks k name options True
                | Stop \<Rightarrow> StopCallbacks k name True)" by blast
  have m: "managers w' = managers w" "spawned w' = spawned w"
    by (simp_all add: l(2) newTaskList_def)
  have s: "slotOf w' k' opn' n' \<noteq> Some r" for k' opn' n'
    using assms(3) unfolding refsAllocated_def l by (simp, blast)
  have t: "taskLists w' r = Some l"
    by (simp add: l newTaskList_def)
  have d: "onDone (callbacks l) failed v = (if opn = Create then v else update_next v k)"
    for failed v
    by (cases opn) (simp_all add: cb onDone_def)
  have e: "onError (callbacks l) e c v = v" for e c v
    by (cases opn) (simp_all add: cb onError_def)
  have a: "refsAllocated w'" "r < nextRef w'"
    using invoke_refsAllocated [OF assms(3,4)] invoke_slots [OF assms(4)] by simp_all
  from m s t d e a show ?thesis
    by (intro conjI exI [of _ l]) simp_all
qed

lemma refsAllocated_exampleServer: "refsAllocated exampleServer"
  by (auto simp: refsAllocated_def slotOf_def inFlight_def example_defs
      split: option.splits op.splits if_splits)

lemmas busy_defs =
  busyServer_def worldAfter_def returnedRef_def invoke_def slotOf_def inFlight_def


lemma refsAllocated_busyServer_Stop: "refsAllocated (busyServer Stop)"
  unfolding busyServer_def
  by (rule refsAllocated_worldAfter [OF refsAllocated_exampleServer])

theorem duplicate_invocation_clears_no_slot_witness:
  "slotOf (busyServer Stop) kNode Stop ''main'' = Some 0 \<and>
   returnedRef (invoke Stop (busyServer Stop) kNode ''main'' ''{}'') = Some 1 \<and>
   slotOf (worldAfter (busyServer Stop)
             (invoke Stop (busyServer Stop) kNode ''main'' ''{}'')) kNode Stop ''main''
     \<noteq> Some 1 \<and>
   spawned (worldAfter (busyServer Stop)
             (invoke Stop (busyServer Stop) kNode ''main'' ''{}'')) = []"
proof -
  define w where "w = busyServer Stop"
  define w' where "w' = worldAfter w (invoke Stop w kNode ''main'' ''{}'')"
  have m: "managers w kNode = Some (the (managers w kNode))"
    by (simp add: w_def busy_defs op_defs example_defs Let_def)
  have f: "inFlight Stop (the (managers w kNode)) ''main'' = Some 0"
    by (simp add: w_def busy_defs op_defs example_defs Let_def)
  have a: "refsAllocated w"
    by (simp add: w_def refsAllocated_busyServer_Stop)
  have i: "invoke Stop w kNode ''main'' ''{}'' = Inr (1, w')"
    by (simp add: w'_def w_def busy_defs op_defs example_defs Let_def)
  have s: "spawned w = []"
    by (simp add: w_def busy_defs op_defs example_defs Let_def)
  note th = duplicate_invocation_clears_no_slot [OF m f a i]
  from th have x: "slotOf w' kNode Stop ''main'' \<noteq> Some 1" by blast
  from th s have y: "spawned w' = []" by simp
  from x y busy_Stop show ?thesis
    by (simp add: w_def w'_def)
qed


text \<open>
  A duplicate is not inert altogether. While a stop of the started node \<open>main\<close> is in
  flight, a second stop returns a TaskList whose four tasks are all skipped, so it
  completes at once, and its \<^verbatim>\<open>onComplete\<close> resets \<^verbatim>\<open>started[main]\<close>. While a delete of
  \<open>main\<close> is in flight, the TaskList of a second delete still holds an enabled task
  without a skip, the nested \<^verbatim>\<open>stop(name, options)\<close>.
\<close>

theorem duplicate_invocation_not_inert_counterexample:
  "slotOf stoppingServer kNode Stop ''main'' = Some 0 \<and>
   startedOf stoppingServer kNode ''main'' = Some True \<and>
   returnedRef (stop stoppingServer kNode ''main'' ''{}'') = Some 1 \<and>
   map_option (\<lambda>l. (callbacks l, map skip (tasks l)))
     (taskLists (worldAfter stoppingServer (stop stoppingServer kNode ''main'' ''{}'')) 1)
     = Some (StopCallbacks kNode ''main'' True,
             [SkipTrue, SkipBecause (AlreadyBeing Stop), SkipTrue, SkipTrue]) \<and>
   startedOf
     (onComplete (StopCallbacks kNode ''main'' True)
        (worldAfter stoppingServer (stop stoppingServer kNode ''main'' ''{}'')))
     kNode ''main'' = Some False \<and>
   slotOf deletingServer kNode Delete ''main'' = Some 0 \<and>
   returnedRef (delete deletingServer kNode ''main'' ''{}'') = Some 1 \<and>
   map_option
     (\<lambda>l. filter (\<lambda>t. skip t = NoSkip \<and> isEnabled deletingServer (enabled t)) (tasks l))
     (taskLists (worldAfter deletingServer (delete deletingServer kNode ''main'' ''{}'')) 1)
     = Some [\<lparr>enabled = EnabledIfStarted kNode ''main'', skip = NoSkip,
              task = Call Stop kNode ''main'' ''{}''\<rparr>]"
  by code_simp

section \<open>The started flag\<close>

lemma invoke_shape:
  assumes "invoke opn w k name options = Inr (r, w')"
  shows "\<exists>l f. (w' = newTaskList w l \<or> w' = updManager (newTaskList w l) k f) \<and>
           (\<forall>m. resourceAdaptersStarted (f m) = resourceAdaptersStarted m \<and>
                resourceAdapters (f m) = resourceAdapters m \<and>
                directResourceDependents (f m) = directResourceDependents m \<and>
                resourceDependents (f m) = resourceDependents m \<and>
                crud (f m) = crud m)"
proof -
  from invoke_Inr_manager [OF assms] obtain this where m: "managers w k = Some this" ..
  show ?thesis
  proof (cases opn)
    case Create
    with assms create_eq [OF m, of name options] show ?thesis
      by (cases "createTaskList this name") (auto simp: invoke_def intro!: exI)
  next
    case Delete
    with assms delete_eq [OF m, of name options] show ?thesis
      by (cases "deleteTaskList this name") (auto simp: invoke_def intro!: exI)
  next
    case Start
    with assms have st: "start w k name options = Inr (r, w')" by (simp add: invoke_def)
    from start_Inr [OF m st] obtain deps where
      "hasStart (crud this)" "hasStop (crud this)"
      "getStartDeps w (directResourceDependents this name) = Inr deps" by blast
    from start_eq [OF m this, of options] st show ?thesis
      by (cases "startTaskList this name") (auto intro!: exI)
  next
    case Stop
    with assms have st: "stop w k name options = Inr (r, w')" by (simp add: invoke_def)
    from stop_Inr [OF m st] obtain deps ddeps where
      "hasStart (crud this)" "hasStop (crud this)"
      "getStopDeps w (resourceDependents this name) = Inr deps"
      "getStopDeps w (directResourceDependents this name) = Inr ddeps" by blast
    from stop_eq [OF m this, of options] st show ?thesis
      by (cases "stopTaskList this name") (auto intro!: exI)
  qed
qed

lemma observe_newTaskList [simp]:
  "startedOf (newTaskList w l) k n = startedOf w k n"
  "adaptersOf (newTaskList w l) k = adaptersOf w k"
  "directDependentsOf (newTaskList w l) k n = directDependentsOf w k n"
  "dependentsOf (newTaskList w l) k n = dependentsOf w k n"
  "managers (newTaskList w l) = managers w"
  "spawned (newTaskList w l) = spawned w" "thrown (newTaskList w l) = thrown w"
  "closureSet (newTaskList w l) = closureSet w" "aborted (newTaskList w l) = aborted w"
  by (simp_all add: newTaskList_def startedOf_def adaptersOf_def directDependentsOf_def
        dependentsOf_def)

lemma observe_updManager:
  "startedOf (updManager w k f) k' n =
     (if k' = k then (case managers w k of None \<Rightarrow> None
                      | Some m \<Rightarrow> resourceAdaptersStarted (f m) n)
      else startedOf w k' n)"
  "adaptersOf (updManager w k f) k' =
     (if k' = k then (case managers w k of None \<Rightarrow> [] | Some m \<Rightarrow> resourceAdapters (f m))
      else adaptersOf w k')"
  "directDependentsOf (updManager w k f) k' n =
     (if k' = k then (case managers w k of None \<Rightarrow> None
                      | Some m \<Rightarrow> directResourceDependents (f m) n)
      else directDependentsOf w k' n)"
  "dependentsOf (updManager w k f) k' n =
     (if k' = k then (case managers w k of None \<Rightarrow> []
                      | Some m \<Rightarrow> orEmpty (resourceDependents (f m) n))
      else dependentsOf w k' n)"
  "slotOf (updManager w k f) k' opn n =
     (if k' = k then (case managers w k of None \<Rightarrow> None | Some m \<Rightarrow> inFlight opn (f m) n)
      else slotOf w k' opn n)"
  by (simp_all add: startedOf_def adaptersOf_def directDependentsOf_def dependentsOf_def
        slotOf_def managers_updManager split: option.splits)

lemma observe_updManager_same:
  "(\<And>m. resourceAdaptersStarted (f m) = resourceAdaptersStarted m) \<Longrightarrow>
     startedOf (updManager w k f) k' n = startedOf w k' n"
  "(\<And>m. resourceAdapters (f m) = resourceAdapters m) \<Longrightarrow>
     adaptersOf (updManager w k f) k' = adaptersOf w k'"
  "(\<And>m. directResourceDependents (f m) = directResourceDependents m) \<Longrightarrow>
     directDependentsOf (updManager w k f) k' n = directDependentsOf w k' n"
  "(\<And>m. resourceDependents (f m) = resourceDependents m) \<Longrightarrow>
     dependentsOf (updManager w k f) k' n = dependentsOf w k' n"
  "(\<And>m. inFlight opn (f m) = inFlight opn m) \<Longrightarrow>
     slotOf (updManager w k f) k' opn n = slotOf w k' opn n"
proof -
  show "startedOf (updManager w k f) k' n = startedOf w k' n"
    if "\<And>m. resourceAdaptersStarted (f m) = resourceAdaptersStarted m"
    using that by (cases "managers w k") (simp_all add: startedOf_def managers_updManager)
  show "adaptersOf (updManager w k f) k' = adaptersOf w k'"
    if "\<And>m. resourceAdapters (f m) = resourceAdapters m"
    using that by (cases "managers w k") (simp_all add: adaptersOf_def managers_updManager)
  show "directDependentsOf (updManager w k f) k' n = directDependentsOf w k' n"
    if "\<And>m. directResourceDependents (f m) = directResourceDependents m"
    using that
    by (cases "managers w k") (simp_all add: directDependentsOf_def managers_updManager)
  show "dependentsOf (updManager w k f) k' n = dependentsOf w k' n"
    if "\<And>m. resourceDependents (f m) = resourceDependents m"
    using that by (cases "managers w k") (simp_all add: dependentsOf_def managers_updManager)
  show "slotOf (updManager w k f) k' opn n = slotOf w k' opn n"
    if "\<And>m. inFlight opn (f m) = inFlight opn m"
    using that by (cases "managers w k") (simp_all add: slotOf_def managers_updManager)
qed

lemma inFlight_other_fields [simp]:
  "inFlight opn (m\<lparr>resourceDependents := a\<rparr>) = inFlight opn m"
  "inFlight opn (m\<lparr>directResourceDependents := b\<rparr>) = inFlight opn m"
  "inFlight opn (m\<lparr>resourceAdapters := c\<rparr>) = inFlight opn m"
  "inFlight opn (m\<lparr>resourceAdaptersStarted := d\<rparr>) = inFlight opn m"
  "inFlight opn (m\<lparr>updates := e\<rparr>) = inFlight opn m"
  by (cases opn, simp_all add: inFlight_def)+

lemma managers_updManager_None [simp]:
  "(managers (updManager w k f) k' = None) = (managers w k' = None)"
  by (simp add: managers_updManager)

lemma fields_updManager [simp]:
  "spawned (updManager w k f) = spawned w" "thrown (updManager w k f) = thrown w"
  "closureSet (updManager w k f) = closureSet w" "aborted (updManager w k f) = aborted w"
  "nextRef (updManager w k f) = nextRef w" "taskLists (updManager w k f) = taskLists w"
  "releasedPorts (updManager w k f) = releasedPorts w"
  by (simp_all add: updManager_def split: option.splits)

lemma invoke_frame:
  assumes "invoke opn w k name options = Inr (r, w')"
  shows "startedOf w' k' n = startedOf w k' n"
    and "adaptersOf w' k' = adaptersOf w k'"
    and "directDependentsOf w' k' n = directDependentsOf w k' n"
    and "dependentsOf w' k' n = dependentsOf w k' n"
    and "spawned w' = spawned w" and "thrown w' = thrown w"
    and "closureSet w' = closureSet w" and "aborted w' = aborted w"
    and "map_option crud (managers w' k') = map_option crud (managers w k')"
proof -
  from invoke_shape [OF assms] obtain l f where
    w': "w' = newTaskList w l \<or> w' = updManager (newTaskList w l) k f"
    and f: "\<And>m. resourceAdaptersStarted (f m) = resourceAdaptersStarted m"
      "\<And>m. resourceAdapters (f m) = resourceAdapters m"
      "\<And>m. directResourceDependents (f m) = directResourceDependents m"
      "\<And>m. resourceDependents (f m) = resourceDependents m"
      "\<And>m. crud (f m) = crud m" by blast
  from w' show "startedOf w' k' n = startedOf w k' n"
    by (auto simp: observe_updManager_same f)
  from w' show "adaptersOf w' k' = adaptersOf w k'"
    by (auto simp: observe_updManager_same f)
  from w' show "directDependentsOf w' k' n = directDependentsOf w k' n"
    by (auto simp: observe_updManager_same f)
  from w' show "dependentsOf w' k' n = dependentsOf w k' n"
    by (auto simp: observe_updManager_same f)
  from w' show "spawned w' = spawned w" "thrown w' = thrown w"
    "closureSet w' = closureSet w" "aborted w' = aborted w"
    by auto
  from w' show "map_option crud (managers w' k') = map_option crud (managers w k')"
    by (auto simp: managers_updManager f option.map_comp comp_def
        intro: option.map_cong)
qed

lemmas stop_frame = invoke_frame [where opn = Stop, unfolded invoke_def op.case]
lemmas delete_frame = invoke_frame [where opn = Delete, unfolded invoke_def op.case]

text \<open>\<^verbatim>\<open>_addDependents\<close> only appends to \<^verbatim>\<open>_resourceDependents\<close> lists.\<close>

lemma addDependents_frame:
  "startedOf (fst (addDependents w k n ds)) k' n' = startedOf w k' n' \<and>
   adaptersOf (fst (addDependents w k n ds)) k' = adaptersOf w k' \<and>
   directDependentsOf (fst (addDependents w k n ds)) k' n' = directDependentsOf w k' n' \<and>
   slotOf (fst (addDependents w k n ds)) k' opn n' = slotOf w k' opn n' \<and>
   nextRef (fst (addDependents w k n ds)) = nextRef w \<and>
   taskLists (fst (addDependents w k n ds)) = taskLists w \<and>
   spawned (fst (addDependents w k n ds)) = spawned w \<and>
   thrown (fst (addDependents w k n ds)) = thrown w \<and>
   closureSet (fst (addDependents w k n ds)) = closureSet w \<and>
   (managers (fst (addDependents w k n ds)) k' = None) = (managers w k' = None)"
proof (induction ds arbitrary: w)
  case Nil
  then show ?case by simp
next
  case (Cons d ds)
  show ?case
  proof (cases "managers w (plugin d, resourceType d)")
    case None
    then show ?thesis by (simp add: getResourcesManager_def)
  next
    case (Some m)
    then show ?thesis
      by (simp add: getResourcesManager_def Cons.IH observe_updManager_same
            addDependent_def)
  qed
qed

lemma startedOf_simple [simp]:
  "startedOf (toPromise_catch w r) k n = startedOf w k n"
  "startedOf (w\<lparr>thrown := t\<rparr>) k n = startedOf w k n"
  "startedOf (w\<lparr>closureSet := cs\<rparr>) k n = startedOf w k n"
  by (simp_all add: startedOf_def toPromise_catch_def)

lemma startedOf_set:
  "startedOf
     (updManager w k
        (\<lambda>m. m\<lparr>resourceAdaptersStarted := (resourceAdaptersStarted m)(name \<mapsto> b)\<rparr>)) k' n =
     (if k' = k \<and> n = name \<and> managers w k \<noteq> None then Some b else startedOf w k' n)"
  by (cases "managers w k") (simp_all add: startedOf_def managers_updManager)

text \<open>\<^verbatim>\<open>setFromContext\<close>, when \<^verbatim>\<open>set\<close> is still false, in two steps.\<close>

lemma setFromContext_unset:
  assumes "\<not> closureSet w r"
  shows "setFromContext w k name r c =
     (case addDependents
             (updManager
                (updManager (w\<lparr>closureSet := (closureSet w)(r := True)\<rparr>) k
                   (\<lambda>m. m\<lparr>resourceAdapters :=
                             AList.update name (ctx_resourceAdapter c) (resourceAdapters m)\<rparr>))
                k (\<lambda>m. m\<lparr>directResourceDependents :=
                           (directResourceDependents m)(name \<mapsto> orEmpty (ctx_dependents c))\<rparr>))
             k name (orEmpty (ctx_dependencies c)) of
        (w4, None) \<Rightarrow> (update_next w4 k, None)
      | (w4, Some e) \<Rightarrow> (w4, Some e))"
  using assms by (simp add: setFromContext_def Let_def split: prod.splits option.splits)

lemma setFromContext_started:
  "startedOf (fst (setFromContext w k name r c)) k' n = startedOf w k' n"
proof (cases "closureSet w r")
  case True
  then show ?thesis by (simp add: setFromContext_def)
next
  case False
  define w3 where "w3 =
    updManager
      (updManager (w\<lparr>closureSet := (closureSet w)(r := True)\<rparr>) k
         (\<lambda>m. m\<lparr>resourceAdapters :=
                   AList.update name (ctx_resourceAdapter c) (resourceAdapters m)\<rparr>))
      k (\<lambda>m. m\<lparr>directResourceDependents :=
                 (directResourceDependents m)(name \<mapsto> orEmpty (ctx_dependents c))\<rparr>)"
  obtain w4 err where ad: "addDependents w3 k name (orEmpty (ctx_dependencies c)) = (w4, err)"
    by (cases "addDependents w3 k name (orEmpty (ctx_dependencies c))")
  have 3: "startedOf w3 k' n = startedOf w k' n"
    by (simp add: w3_def observe_updManager_same)
  have 4: "startedOf w4 k' n = startedOf w3 k' n"
    using addDependents_frame [of w3 k name "orEmpty (ctx_dependencies c)" k' n]
    by (simp add: ad)
  show ?thesis
    using 3 4 ad
    by (cases err) (simp_all add: setFromContext_unset [OF False] w3_def [symmetric])
qed

lemma onError_started: "startedOf (onError cb e c w) k' n = startedOf w k' n"
proof (cases cb)
  case (CreateCallbacks k name options shouldSkip r)
  then show ?thesis
    using setFromContext_started [of w k name r c k' n]
    by (cases "setFromContext w k name r c"; cases shouldSkip)
       (auto simp: onError_def split: option.splits)
qed (simp_all add: onError_def)

lemma onComplete_started:
  "startedOf (onComplete cb w) k' n =
     (case cb of
        StopCallbacks k name shouldSkip \<Rightarrow>
          if k' = k \<and> n = name \<and> managers w k \<noteq> None then Some False
          else startedOf w k' n
      | _ \<Rightarrow> startedOf w k' n)"
  by (cases cb) (simp_all add: onComplete_def startedOf_set)

lemma onDone_started:
  "startedOf (onDone cb failed w) k' n =
     (case cb of
        StartCallbacks k name options shouldSkip \<Rightarrow>
          if \<not> shouldSkip \<and> k' = k \<and> n = name \<and> managers w k \<noteq> None then Some True
          else startedOf w k' n
      | _ \<Rightarrow> startedOf w k' n)"
proof (cases cb)
  case NoCallbacks
  then show ?thesis by (simp add: onDone_def)
next
  case (CreateCallbacks k name options shouldSkip r)
  define w1 where
    "w1 = updManager w k (\<lambda>m. m\<lparr>createTaskList := (createTaskList m)(name := None)\<rparr>)"
  have 1: "startedOf w1 k' n = startedOf w k' n"
    by (simp add: w1_def observe_updManager_same)
  show ?thesis
  proof (cases "delete w1 k name options")
    case (Inl e)
    then show ?thesis
      using 1 by (simp add: CreateCallbacks onDone_def w1_def [symmetric])
  next
    case (Inr p)
    obtain r' w2 where p: "p = (r', w2)" by (cases p)
    from delete_frame(1) [OF Inr [unfolded p]] 1 show ?thesis
      by (simp add: CreateCallbacks onDone_def w1_def [symmetric] Inr p)
  qed
next
  case (DeleteCallbacks k name shouldSkip)
  then show ?thesis
    by (simp add: onDone_def observe_updManager_same)
next
  case (StartCallbacks k name options shouldSkip)
  define w1 where
    "w1 = updManager w k
            (\<lambda>m. m\<lparr>resourceAdaptersStarted := (resourceAdaptersStarted m)(name \<mapsto> True)\<rparr>)"
  define w2 where
    "w2 = updManager w1 k (\<lambda>m. m\<lparr>startTaskList := (startTaskList m)(name := None)\<rparr>)"
  have 1: "startedOf w2 k' n =
             (if k' = k \<and> n = name \<and> managers w k \<noteq> None then Some True
              else startedOf w k' n)"
    by (simp add: w2_def w1_def observe_updManager_same startedOf_set)
  show ?thesis
  proof (cases shouldSkip)
    case True
    then show ?thesis by (simp add: StartCallbacks onDone_def)
  next
    case False
    show ?thesis
    proof (cases "stop w2 k name options")
      case (Inl e)
      then show ?thesis
        using 1 False
        by (auto simp: StartCallbacks onDone_def w1_def [symmetric] w2_def [symmetric])
    next
      case (Inr p)
      obtain r' w3 where p: "p = (r', w3)" by (cases p)
      from stop_frame(1) [OF Inr [unfolded p]] 1 False show ?thesis
        by (auto simp: StartCallbacks onDone_def w1_def [symmetric] w2_def [symmetric] Inr p)
    qed
  qed
next
  case (StopCallbacks k name shouldSkip)
  then show ?thesis
    by (simp add: onDone_def observe_updManager_same)
qed

lemma init_p_started:
  "startedOf (snd (init_p res w k name)) k' n = startedOf w k' n"
  by (cases res) (simp_all add: init_p_def observe_updManager_same)

lemma initResource_started:
  "startedOf (snd (initResource env k name w)) k' n = startedOf w k' n"
proof (cases "managers w k")
  case None
  then show ?thesis by (simp add: initResource_def getResourcesManager_def)
next
  case (Some this)
  obtain o1 w1 where i: "init_p (initResourceAdapter env name) w k name = (o1, w1)"
    by (cases "init_p (initResourceAdapter env name) w k name")
  have 1: "startedOf w1 k' n = startedOf w k' n"
    using init_p_started [of "initResourceAdapter env name" w k name k' n] by (simp add: i)
  have 2: "startedOf
             (fst (addDependents
                     (updManager w1 k
                        (\<lambda>m. m\<lparr>directResourceDependents :=
                                  (directResourceDependents m)(name \<mapsto> dts)\<rparr>))
                     k name dcs)) k' n = startedOf w k' n" for dts dcs
    using 1 by (simp add: addDependents_frame observe_updManager_same)
  show ?thesis
  proof (cases o1)
    case (Rejected e)
    then show ?thesis
      using 1 by (simp add: initResource_def getResourcesManager_def Some i)
  next
    case Resolved
    show ?thesis
    proof (cases "readDeps (readJSON env (getDependenciesPath this name))")
      case (Inl e)
      then show ?thesis
        using 1 by (simp add: initResource_def getResourcesManager_def Some i Resolved)
    next
      case dcs: (Inr dcs)
      show ?thesis
      proof (cases "readDeps (readJSON env (getDirectDependentsPath this name))")
        case (Inl e)
        then show ?thesis
          using 1 by (simp add: initResource_def getResourcesManager_def Some i Resolved dcs)
      next
        case dts: (Inr dts)
        obtain w3 err where a: "addDependents
                     (updManager w1 k
                        (\<lambda>m. m\<lparr>directResourceDependents :=
                                  (directResourceDependents m)(name \<mapsto> dts)\<rparr>))
                     k name dcs = (w3, err)"
          by (cases "addDependents
                     (updManager w1 k
                        (\<lambda>m. m\<lparr>directResourceDependents :=
                                  (directResourceDependents m)(name \<mapsto> dts)\<rparr>))
                     k name dcs")
        from 2 [of dts dcs] have "startedOf w3 k' n = startedOf w k' n"
          by (simp add: a)
        then show ?thesis
          by (simp add: initResource_def getResourcesManager_def Some i Resolved dcs dts a)
      qed
    qed
  qed
qed

lemma initEach_started:
  "startedOf (snd (initEach env k names w)) k' n = startedOf w k' n"
proof (induction names arbitrary: w)
  case Nil
  then show ?case by simp
next
  case (Cons name names)
  obtain err w1 where r: "initResource env k name w = (err, w1)"
    by (cases "initResource env k name w")
  obtain errs w2 where e: "initEach env k names w1 = (errs, w2)"
    by (cases "initEach env k names w1")
  have "startedOf w1 k' n = startedOf w k' n"
    using initResource_started [of env k name w k' n] by (simp add: r)
  moreover have "startedOf w2 k' n = startedOf w1 k' n"
    using Cons.IH [of w1] by (simp add: e)
  ultimately show ?case by (simp add: r e)
qed

lemma init_started:
  assumes "init env w k = Inr (errs, w')"
  shows "startedOf w' k' n = startedOf w k' n"
proof -
  from assms obtain this resources where
    m: "managers w k = Some this" and d: "ensureDirs env = Resolved"
    and g: "readyGetAll env = Inr resources" and u: "firstDuplicate [] resources = None"
    by (auto simp: init_def getResourcesManager_def
        split: option.splits outcome.splits sum.splits)
  define w1 where "w1 = updManager w k (\<lambda>m. m\<lparr>resourceAdapters := []\<rparr>)"
  obtain results w2 where e: "initEach env k resources w1 = (results, w2)"
    by (cases "initEach env k resources w1")
  have "w' = update_next w2 k"
    using assms by (simp add: init_def getResourcesManager_def m d g u w1_def [symmetric] e)
  moreover have "startedOf w2 k' n = startedOf w1 k' n"
    using initEach_started [of env k resources w1 k' n] by (simp add: e)
  moreover have "startedOf w1 k' n = startedOf w k' n"
    by (simp add: w1_def observe_updManager_same)
  ultimately show ?thesis by simp
qed

lemma callbacks_of_start [simp]:
  "onComplete (StartCallbacks k name options shouldSkip) w = w"
  "onError (StartCallbacks k name options shouldSkip) e c w = w"
  by (simp_all add: onComplete_def onError_def)

text \<open>
  Claim C2, as amended. \<^verbatim>\<open>started[name]\<close> is set to true by the \<^verbatim>\<open>onDone\<close> of every
  start operation that was not a duplicate, whether it is called with \<open>failed\<close> true or
  false: after a failed start the flag is true (the fire-and-forget stop that \<^verbatim>\<open>onDone\<close>
  then schedules is what may reset it later). It is reset to false by the \<^verbatim>\<open>onComplete\<close>
  of a stop, and by nothing else: no \<^verbatim>\<open>onError\<close>, no other \<^verbatim>\<open>onDone\<close> or
  \<^verbatim>\<open>onComplete\<close> and no call of an operation changes it; a new manager has no flag set,
  and \<^verbatim>\<open>init()\<close> does not touch the flags.
\<close>

theorem started_flag_lifecycle:
  "startedOf (onDone cb failed w) k' n =
     (case cb of
        StartCallbacks k name options shouldSkip \<Rightarrow>
          if \<not> shouldSkip \<and> k' = k \<and> n = name \<and> managers w k \<noteq> None then Some True
          else startedOf w k' n
      | _ \<Rightarrow> startedOf w k' n) \<and>
   startedOf (onComplete cb w) k' n =
     (case cb of
        StopCallbacks k name shouldSkip \<Rightarrow>
          if k' = k \<and> n = name \<and> managers w k \<noteq> None then Some False
          else startedOf w k' n
      | _ \<Rightarrow> startedOf w k' n) \<and>
   startedOf (onError cb e c w) k' n = startedOf w k' n \<and>
   resourceAdaptersStarted (constructor cr dp) n = None \<and>
   (init env w k = Inr (errs, w') \<longrightarrow> startedOf w' k' n = startedOf w k' n) \<and>
   (invoke opn w k name options = Inr (r, w'') \<longrightarrow> startedOf w'' k' n = startedOf w k' n)"
proof -
  have 2: "resourceAdaptersStarted (constructor cr dp) n = None"
    by (simp add: constructor_def)
  have 3: "init env w k = Inr (errs, w') \<longrightarrow> startedOf w' k' n = startedOf w k' n"
    using init_started by blast
  have 4: "invoke opn w k name options = Inr (r, w'') \<longrightarrow>
           startedOf w'' k' n = startedOf w k' n"
    using invoke_frame(1) by blast
  show ?thesis
    by (intro conjI onDone_started onComplete_started onError_started 2 3 4)
qed

theorem started_after_failed_start_counterexample:
  "slotOf (busyServer Start) kNode Start ''main'' = Some 0 \<and>
   map_option callbacks (taskLists (busyServer Start) 0)
     = Some (StartCallbacks kNode ''main'' ''{}'' False) \<and>
   startedOf (busyServer Start) kNode ''main'' = None \<and>
   startedOf
     (onDone (StartCallbacks kNode ''main'' ''{}'' False) True
        (onError (StartCallbacks kNode ''main'' ''{}'' False) (OtherError ''refused'')
           freshCtx (busyServer Start)))
     kNode ''main'' = Some True"
  by code_simp

lemma init_example:
  "init exampleInit exampleServer kNode =
     Inr (fst (projr (init exampleInit exampleServer kNode)),
          snd (projr (init exampleInit exampleServer kNode)))"
  by (simp add: init_def exampleInit_def getResourcesManager_def managers_exampleServer
        split: prod.splits)

lemma stop_example:
  "invoke Stop exampleServer kNode ''main'' ''{}'' =
     Inr (0, worldAfter exampleServer (invoke Stop exampleServer kNode ''main'' ''{}''))"
  by (simp add: busy_defs op_defs example_defs Let_def)

theorem started_flag_lifecycle_witness:
  "startedOf (onDone (StartCallbacks kNode ''main'' ''{}'' False) True (busyServer Start))
     kNode ''main'' = Some True \<and>
   startedOf (onComplete (StopCallbacks kNode ''main'' False) (busyServer Stop))
     kNode ''main'' = Some False \<and>
   startedOf (snd (projr (init exampleInit exampleServer kNode))) kNode ''main'' = None \<and>
   startedOf (worldAfter exampleServer (invoke Stop exampleServer kNode ''main'' ''{}''))
     kNode ''main'' = None"
proof -
  have m: "managers (busyServer Start) kNode \<noteq> None" "managers (busyServer Stop) kNode \<noteq> None"
    by (simp_all add: busy_defs op_defs example_defs Let_def)
  have n: "startedOf exampleServer kNode ''main'' = None"
    by (simp add: startedOf_def example_defs)
  note a = started_flag_lifecycle
    [where cb = "StartCallbacks kNode ''main'' ''{}'' False" and failed = True
       and w = "busyServer Start" and k' = kNode and n = "''main''"]
  note b = started_flag_lifecycle
    [where cb = "StopCallbacks kNode ''main'' False"
       and w = "busyServer Stop" and k' = kNode and n = "''main''"]
  note c = started_flag_lifecycle
    [where env = exampleInit and w = exampleServer and k = kNode and k' = kNode
       and n = "''main''" and opn = Stop and name = "''main''" and options = "''{}''"
       and errs = "fst (projr (init exampleInit exampleServer kNode))"
       and w' = "snd (projr (init exampleInit exampleServer kNode))"
       and r = 0
       and w'' = "worldAfter exampleServer (invoke Stop exampleServer kNode ''main'' ''{}'')"]
  from a m have 1: "startedOf
     (onDone (StartCallbacks kNode ''main'' ''{}'' False) True (busyServer Start))
     kNode ''main'' = Some True"
    by simp
  from b m have 2: "startedOf
     (onComplete (StopCallbacks kNode ''main'' False) (busyServer Stop))
     kNode ''main'' = Some False"
    by simp
  from c init_example stop_example n
  have 3: "startedOf (snd (projr (init exampleInit exampleServer kNode))) kNode ''main'' = None"
    and 4: "startedOf (worldAfter exampleServer
               (invoke Stop exampleServer kNode ''main'' ''{}'')) kNode ''main'' = None"
    by simp_all
  from 1 2 3 4 show ?thesis by blast
qed

section \<open>A create that fails\<close>

lemma dependentsOf_addDependent:
  "dependentsOf (updManager w k2 (\<lambda>m. addDependent m n2 dep)) k' n' =
     (if k' = k2 \<and> n' = n2 \<and> managers w k2 \<noteq> None then dependentsOf w k' n' @ [dep]
      else dependentsOf w k' n')"
  by (cases "managers w k2")
     (simp_all add: dependentsOf_def managers_updManager addDependent_def orEmpty_def)

lemma addDependents_registered:
  "\<forall>d \<in> set ds. managers w (plugin d, resourceType d) \<noteq> None \<Longrightarrow>
   snd (addDependents w k n ds) = None"
proof (induction ds arbitrary: w)
  case Nil
  then show ?case by simp
next
  case (Cons d ds)
  from Cons.prems obtain m where m: "managers w (plugin d, resourceType d) = Some m"
    by auto
  show ?case
    using Cons.prems by (simp add: getResourcesManager_def m Cons.IH)
qed

lemma addDependents_mono:
  "x \<in> set (dependentsOf w k' n') \<Longrightarrow>
   x \<in> set (dependentsOf (fst (addDependents w k n ds)) k' n')"
proof (induction ds arbitrary: w)
  case Nil
  then show ?case by simp
next
  case (Cons d ds)
  show ?case
  proof (cases "managers w (plugin d, resourceType d)")
    case None
    then show ?thesis using Cons.prems by (simp add: getResourcesManager_def)
  next
    case (Some m)
    have "x \<in> set (dependentsOf
                     (updManager w (plugin d, resourceType d)
                        (\<lambda>manager. addDependent manager (depName d)
                            \<lparr>plugin = fst k, resourceType = snd k, depName = n\<rparr>)) k' n')"
      using Cons.prems by (auto simp: dependentsOf_addDependent)
    from Cons.IH [OF this] show ?thesis
      by (simp add: getResourcesManager_def Some)
  qed
qed

lemma addDependents_propagates:
  "\<forall>d \<in> set ds. managers w (plugin d, resourceType d) \<noteq> None \<Longrightarrow>
   \<forall>d \<in> set ds. \<lparr>plugin = fst k, resourceType = snd k, depName = n\<rparr>
      \<in> set (dependentsOf (fst (addDependents w k n ds)) (plugin d, resourceType d) (depName d))"
proof (induction ds arbitrary: w)
  case Nil
  then show ?case by simp
next
  case (Cons d ds)
  from Cons.prems obtain m where m: "managers w (plugin d, resourceType d) = Some m"
    by auto
  define w1 where
    "w1 = updManager w (plugin d, resourceType d)
            (\<lambda>manager. addDependent manager (depName d)
                \<lparr>plugin = fst k, resourceType = snd k, depName = n\<rparr>)"
  have e: "addDependents w k n (d # ds) = addDependents w1 k n ds"
    by (simp add: getResourcesManager_def m w1_def)
  have "\<lparr>plugin = fst k, resourceType = snd k, depName = n\<rparr>
          \<in> set (dependentsOf w1 (plugin d, resourceType d) (depName d))"
    by (simp add: w1_def dependentsOf_addDependent m)
  then have h: "\<lparr>plugin = fst k, resourceType = snd k, depName = n\<rparr>
          \<in> set (dependentsOf (fst (addDependents w1 k n ds))
                   (plugin d, resourceType d) (depName d))"
    by (rule addDependents_mono)
  have "\<forall>d \<in> set ds. managers w1 (plugin d, resourceType d) \<noteq> None"
    using Cons.prems by (simp add: w1_def)
  from Cons.IH [OF this] h show ?case
    unfolding e by simp
qed

lemma observe_simple [simp]:
  "adaptersOf (toPromise_catch w r) k = adaptersOf w k"
  "directDependentsOf (toPromise_catch w r) k n = directDependentsOf w k n"
  "dependentsOf (toPromise_catch w r) k n = dependentsOf w k n"
  "slotOf (toPromise_catch w r) k opn n = slotOf w k opn n"
  "adaptersOf (w\<lparr>closureSet := cs\<rparr>) k = adaptersOf w k"
  "directDependentsOf (w\<lparr>closureSet := cs\<rparr>) k n = directDependentsOf w k n"
  "dependentsOf (w\<lparr>closureSet := cs\<rparr>) k n = dependentsOf w k n"
  "slotOf (w\<lparr>closureSet := cs\<rparr>) k opn n = slotOf w k opn n"
  "dependentsOf (update_next w k') k n = dependentsOf w k n"
  "directDependentsOf (update_next w k') k n = directDependentsOf w k n"
  by (simp_all add: adaptersOf_def directDependentsOf_def dependentsOf_def slotOf_def
        toPromise_catch_def update_next_def managers_updManager split: option.splits)

lemma installedI:
  assumes "map_of (adaptersOf w k) name = Some (ctx_resourceAdapter c)"
    and "directDependentsOf w k name = Some (orEmpty (ctx_dependents c))"
    and "\<And>d. d \<in> set (orEmpty (ctx_dependencies c)) \<Longrightarrow>
          \<lparr>plugin = fst k, resourceType = snd k, depName = name\<rparr>
            \<in> set (dependentsOf w (plugin d, resourceType d) (depName d))"
  shows "installed w k name c"
  using assms by (simp add: installed_def)

lemma installed_cong:
  assumes "installed w k name c"
    and "adaptersOf w' k = adaptersOf w k"
    and "directDependentsOf w' k name = directDependentsOf w k name"
    and "\<And>k' n. dependentsOf w' k' n = dependentsOf w k' n"
  shows "installed w' k name c"
  using assms by (simp add: installed_def)

text \<open>\<^verbatim>\<open>setFromContext\<close> called for the first time installs the context.\<close>

lemma setFromContext_installs:
  assumes m: "managers w k = Some this" and u: "\<not> closureSet w r"
    and reg: "\<forall>d \<in> set (orEmpty (ctx_dependencies c)).
                managers w (plugin d, resourceType d) \<noteq> None"
  shows "snd (setFromContext w k name r c) = None \<and>
         installed (fst (setFromContext w k name r c)) k name c \<and>
         nextRef (fst (setFromContext w k name r c)) = nextRef w \<and>
         taskLists (fst (setFromContext w k name r c)) = taskLists w \<and>
         spawned (fst (setFromContext w k name r c)) = spawned w \<and>
         thrown (fst (setFromContext w k name r c)) = thrown w \<and>
         (\<forall>k' opn n. slotOf (fst (setFromContext w k name r c)) k' opn n = slotOf w k' opn n)"
proof -
  define w3 where "w3 =
    updManager
      (updManager (w\<lparr>closureSet := (closureSet w)(r := True)\<rparr>) k
         (\<lambda>m. m\<lparr>resourceAdapters :=
                   AList.update name (ctx_resourceAdapter c) (resourceAdapters m)\<rparr>))
      k (\<lambda>m. m\<lparr>directResourceDependents :=
                 (directResourceDependents m)(name \<mapsto> orEmpty (ctx_dependents c))\<rparr>)"
  define deps where "deps = orEmpty (ctx_dependencies c)"
  obtain w4 err where ad: "addDependents w3 k name deps = (w4, err)"
    by (cases "addDependents w3 k name deps")
  have reg3: "\<forall>d \<in> set deps. managers w3 (plugin d, resourceType d) \<noteq> None"
    using reg by (simp add: w3_def deps_def)
  have err: "err = None"
    using addDependents_registered [OF reg3, of k name] by (simp add: ad)
  have r: "setFromContext w k name r c = (update_next w4 k, None)"
    by (simp add: setFromContext_unset [OF u] w3_def [symmetric] deps_def [symmetric] ad err)
  have a3: "map_of (adaptersOf w3 k) name = Some (ctx_resourceAdapter c)"
    by (simp add: w3_def adaptersOf_def managers_updManager m update_conv')
  have d3: "directDependentsOf w3 k name = Some (orEmpty (ctx_dependents c))"
    by (simp add: w3_def directDependentsOf_def managers_updManager m)
  note fr = addDependents_frame [of w3 k name deps, unfolded ad fst_conv]
  have p: "\<forall>d \<in> set deps. \<lparr>plugin = fst k, resourceType = snd k, depName = name\<rparr>
      \<in> set (dependentsOf w4 (plugin d, resourceType d) (depName d))"
    using addDependents_propagates [OF reg3, of k name] by (simp add: ad)
  have i: "installed (update_next w4 k) k name c"
    using a3 d3 p fr [of k name]
    by (intro installedI) (simp_all add: deps_def)
  have s: "slotOf (update_next w4 k) k' opn n = slotOf w k' opn n" for k' opn n
    using fr [of k' n opn] by (simp add: w3_def observe_updManager_same)
  have f: "nextRef (update_next w4 k) = nextRef w" "taskLists (update_next w4 k) = taskLists w"
    "spawned (update_next w4 k) = spawned w" "thrown (update_next w4 k) = thrown w"
    using fr [of k name] by (simp_all add: w3_def)
  from i s f show ?thesis by (simp add: r)
qed

lemma getAdapter_adaptersOf:
  "managers w k = Some m \<Longrightarrow> map_of (adaptersOf w k) name = Some (Some a) \<Longrightarrow>
   getAdapter m name = Some a"
  by (simp add: getAdapter_def adaptersOf_def)

lemma newDeleteTaskList_parts:
  "callbacks (newDeleteTaskList k name options cr sk st ct ra deps) = DeleteCallbacks k name sk"
  "\<exists>t \<in> set (tasks (newDeleteTaskList k name options cr sk st ct ra deps)).
      task t = AdapterDelete ra options"
  "\<exists>t \<in> set (tasks (newDeleteTaskList k name options cr sk st ct ra deps)).
      task t = FinalCleanup k name ra"
  "\<exists>t \<in> set (tasks (newDeleteTaskList k name options cr sk st ct ra deps)).
      task t = DeleteDeps deps \<and> enabled t = EnabledWhen (deps \<noteq> [])"
  by (simp_all add: newDeleteTaskList_def Let_def)

lemma delete_taskList:
  assumes "managers w k = Some this"
  shows "\<exists>w'. delete w k name options = Inr (nextRef w, w') \<and>
           taskLists w' (nextRef w) =
             Some (newDeleteTaskList k name options (crud this) (deleteTaskList this name \<noteq> None)
                     (startTaskList this name) (createTaskList this name) (getAdapter this name)
                     (uniqueDeps (orEmpty (resourceDependents this name)
                                  @ orEmpty (directResourceDependents this name))))"
  by (cases "deleteTaskList this name")
     (simp_all add: delete_eq [OF assms] newTaskList_def)

text \<open>
  Claim C3. When the task list of a \<^verbatim>\<open>create\<close> that was not a duplicate fails while
  the context holds a \<^verbatim>\<open>resourceAdapter\<close>, \<^verbatim>\<open>onError\<close> installs it through
  \<^verbatim>\<open>setFromContext\<close>: the adapter goes into the adapters map, the context's dependents
  become the direct dependents, and the name is appended to the dependents of every
  dependency of the context (unless the final-setup task had done all this before, when
  \<^verbatim>\<open>set\<close> is already true). Then \<^verbatim>\<open>onDone(true)\<close> clears the create slot and calls
  \<^verbatim>\<open>delete(name, options)\<close>, whose promise is consumed by \<^verbatim>\<open>.catch(() => {})\<close>; the
  delete list it built deletes and destroys the installed adapter. The managers of the
  context's dependencies are registered (\<^verbatim>\<open>_addDependents\<close> throws on an unknown one).
\<close>

theorem create_failure_installs_then_deletes:
  assumes m: "managers w k = Some this" and a: "ctx_resourceAdapter c = Some a"
    and reg: "\<forall>d \<in> set (orEmpty (ctx_dependencies c)).
                managers w (plugin d, resourceType d) \<noteq> None"
    and s: "\<not> closureSet w r \<or> installed w k name c"
  shows "let cb = CreateCallbacks k name options False r;
             w' = onDone cb True (onError cb e c w)
         in installed w' k name c \<and>
            map_of (adaptersOf w' k) name = Some (Some a) \<and>
            slotOf w' k Create name = None \<and>
            spawned w' = spawned w @ [(nextRef w, Swallow)] \<and>
            thrown w' = thrown w \<and>
            (\<exists>l. taskLists w' (nextRef w) = Some l \<and>
                 callbacks l = DeleteCallbacks k name (deleteTaskList this name \<noteq> None) \<and>
                 (\<exists>t \<in> set (tasks l). task t = AdapterDelete (Some a) options) \<and>
                 (\<exists>t \<in> set (tasks l). task t = FinalCleanup k name (Some a)))"
proof -
  define cb where "cb = CreateCallbacks k name options False r"
  define w1 where "w1 = onError cb e c w"
  have w1: "installed w1 k name c \<and> nextRef w1 = nextRef w \<and> taskLists w1 = taskLists w \<and>
            spawned w1 = spawned w \<and> thrown w1 = thrown w \<and>
            (\<forall>k' opn n. slotOf w1 k' opn n = slotOf w k' opn n)"
  proof (cases "closureSet w r")
    case True
    with s have "installed w k name c" by simp
    moreover have "w1 = w"
      by (simp add: w1_def cb_def onError_def setFromContext_def True)
    ultimately show ?thesis by simp
  next
    case False
    obtain v err where sf: "setFromContext w k name r c = (v, err)"
      by (cases "setFromContext w k name r c")
    from setFromContext_installs [OF m False reg, of name] have
      "err = None" "installed v k name c" "nextRef v = nextRef w" "taskLists v = taskLists w"
      "spawned v = spawned w" "thrown v = thrown w"
      "\<forall>k' opn n. slotOf v k' opn n = slotOf w k' opn n"
      by (simp_all add: sf)
    moreover have "w1 = v"
      by (simp add: w1_def cb_def onError_def sf \<open>err = None\<close>)
    ultimately show ?thesis by simp
  qed
  define w2 where
    "w2 = updManager w1 k (\<lambda>m. m\<lparr>createTaskList := (createTaskList m)(name := None)\<rparr>)"
  have "managers w1 k \<noteq> None"
    using w1 by (auto simp: installed_def adaptersOf_def split: option.splits)
  then obtain this1 where m1: "managers w1 k = Some this1" by blast
  have "slotOf w1 k Delete name = slotOf w k Delete name"
    using w1 by blast
  then have d1: "deleteTaskList this1 name = deleteTaskList this name"
    by (simp add: slotOf_def m1 m inFlight_def)
  define this2 where
    "this2 = this1\<lparr>createTaskList := (createTaskList this1)(name := None)\<rparr>"
  have m2: "managers w2 k = Some this2"
    by (simp add: w2_def this2_def managers_updManager m1)
  have i2: "installed w2 k name c"
    using w1 by (rule_tac installed_cong [of w1]) (simp_all add: w2_def observe_updManager_same)
  have g2: "getAdapter this2 name = Some a"
    using i2 a by (intro getAdapter_adaptersOf [OF m2]) (simp add: installed_def)
  have f2: "nextRef w2 = nextRef w" "taskLists w2 = taskLists w" "spawned w2 = spawned w"
    "thrown w2 = thrown w"
    using w1 by (simp_all add: w2_def)
  have c2: "slotOf w2 k Create name = None"
    by (simp add: slotOf_def m2 this2_def inFlight_def)
  obtain w3 where dl: "delete w2 k name options = Inr (nextRef w2, w3)"
    using delete_eq [OF m2, of name options] by simp
  have w': "onDone cb True (onError cb e c w) = toPromise_catch w3 (nextRef w)"
    by (simp add: cb_def onDone_def w1_def [unfolded cb_def, symmetric]
        w2_def [symmetric] dl f2)
  note fr = delete_frame [OF dl]
  have i3: "installed w3 k name c"
    using i2 by (rule installed_cong) (simp_all add: fr)
  have c3: "slotOf w3 k Create name = None"
  proof -
    from dl have "invoke Delete w2 k name options = Inr (nextRef w2, w3)"
      by (simp add: invoke_def)
    from invoke_slots [OF this]
    have "slotOf w3 k Create name =
            (if slotOf w2 k Delete name = None \<and> k = k \<and> Create = Delete \<and> name = name
             then Some (nextRef w2) else slotOf w2 k Create name)"
      by blast
    then show ?thesis using c2 by simp
  qed
  have d2: "deleteTaskList this2 name = deleteTaskList this name"
    by (simp add: this2_def d1)
  have l3: "\<exists>l. taskLists w3 (nextRef w) = Some l \<and>
              callbacks l = DeleteCallbacks k name (deleteTaskList this name \<noteq> None) \<and>
              (\<exists>t \<in> set (tasks l). task t = AdapterDelete (Some a) options) \<and>
              (\<exists>t \<in> set (tasks l). task t = FinalCleanup k name (Some a))"
    using delete_taskList [OF m2, of name options] dl
      newDeleteTaskList_parts(1-3)
        [of k name options "crud this2" "deleteTaskList this name \<noteq> None"
           "startTaskList this2 name" "createTaskList this2 name" "Some a"
           "uniqueDeps (orEmpty (resourceDependents this2 name)
                        @ orEmpty (directResourceDependents this2 name))"]
    by (simp add: g2 d2 f2)
  have "installed (toPromise_catch w3 (nextRef w)) k name c"
    using i3 by (rule installed_cong) simp_all
  moreover from this a
  have "map_of (adaptersOf (toPromise_catch w3 (nextRef w)) k) name = Some (Some a)"
    by (simp add: installed_def)
  moreover have "slotOf (toPromise_catch w3 (nextRef w)) k Create name = None"
    using c3 by simp
  moreover have "spawned (toPromise_catch w3 (nextRef w)) = spawned w @ [(nextRef w, Swallow)]"
    by (simp add: toPromise_catch_def fr f2)
  moreover have "thrown (toPromise_catch w3 (nextRef w)) = thrown w"
    by (simp add: toPromise_catch_def fr f2)
  moreover have "\<exists>l. taskLists (toPromise_catch w3 (nextRef w)) (nextRef w) = Some l \<and>
              callbacks l = DeleteCallbacks k name (deleteTaskList this name \<noteq> None) \<and>
              (\<exists>t \<in> set (tasks l). task t = AdapterDelete (Some a) options) \<and>
              (\<exists>t \<in> set (tasks l). task t = FinalCleanup k name (Some a))"
    using l3 by (simp add: toPromise_catch_def)
  ultimately show ?thesis
    unfolding Let_def w' [unfolded cb_def] by blast
qed

theorem create_failure_installs_then_deletes_witness:
  "\<not> closureSet creatingServer 0 \<and>
   slotOf creatingServer kNode Create ''second'' = Some 0 \<and>
   map_of (adaptersOf creatingServer kNode) ''second'' = None \<and>
   map_of (adaptersOf failedCreate kNode) ''second'' = Some (Some 9) \<and>
   \<lparr>plugin = ''neo'', resourceType = ''node'', depName = ''second''\<rparr>
     \<in> set (dependentsOf failedCreate kWallet ''w1'') \<and>
   slotOf failedCreate kNode Create ''second'' = None \<and>
   spawned failedCreate = [(1, Swallow)]"
proof -
  have m: "managers creatingServer kNode = Some (the (managers creatingServer kNode))"
    by (simp add: creatingServer_def busy_defs op_defs example_defs Let_def)
  have a: "ctx_resourceAdapter partialCtx = Some 9"
    by (simp add: partialCtx_def)
  have reg: "\<forall>d \<in> set (orEmpty (ctx_dependencies partialCtx)).
               managers creatingServer (plugin d, resourceType d) \<noteq> None"
    by (simp add: partialCtx_def creatingServer_def busy_defs op_defs example_defs Let_def)
  have u: "\<not> closureSet creatingServer 0"
    by (simp add: creatingServer_def busy_defs op_defs example_defs Let_def)
  then have s: "\<not> closureSet creatingServer 0
                 \<or> installed creatingServer kNode ''second'' partialCtx"
    by simp
  have f: "slotOf creatingServer kNode Create ''second'' = Some 0"
    "map_of (adaptersOf creatingServer kNode) ''second'' = None"
    "spawned creatingServer = []" "nextRef creatingServer = 1"
    by (simp_all add: creatingServer_def adaptersOf_def busy_defs op_defs example_defs Let_def)
  note th = create_failure_installs_then_deletes
    [OF m a reg s, of "''{}''" "OtherError ''disk full''",
     unfolded Let_def, folded failedCreate_def]
  from th have i: "installed failedCreate kNode ''second'' partialCtx"
    by blast
  from i have d: "\<lparr>plugin = ''neo'', resourceType = ''node'', depName = ''second''\<rparr>
     \<in> set (dependentsOf failedCreate kWallet ''w1'')"
    by (simp add: installed_def partialCtx_def orEmpty_def wallet1_def kNode_def kWallet_def)
  from th u f d show ?thesis
    by simp
qed

section \<open>Cascades over dependents\<close>













lemma cascades_newStartTaskList:
  "cascades (newStartTaskList k name options sk st ra started deps) = [deps]"
  by (simp add: cascades_def newStartTaskList_def Let_def List.map_filter_def)











section \<open>The order of starts\<close>

lemma runTasks_omitted:
  "\<not> isEnabled w (enabled t) \<Longrightarrow> runTasks run (t # ts) w = runTasks run ts w"
  by simp



lemma runTasks_unfinished:
  "isEnabled w (enabled t) \<Longrightarrow> skip t = NoSkip \<Longrightarrow> run t w = None \<Longrightarrow>
   runTasks run (t # ts) w = None"
  by simp

lemma depTasks_Start:
  "depTasks Start need w deps = Inr ts \<Longrightarrow> ts = map startTask deps"
  by (induction deps arbitrary: ts)
     (auto simp: startTask_def split: sum.splits if_splits)













end
